theory Spec2Isabelle
  imports Complex_Main "HOL-Library.Sublist" "HOL-Library.List_Lexorder" "HOL-Library.Char_ord"
    "HOL-Library.Multiset"
begin

section \<open>Strings and arrays of the host language\<close>

text \<open>
  A JavaScript string is a sequence of UTF-16 code units. The model uses \<^typ>\<open>string\<close>
  (a list of \<^typ>\<open>char\<close>), that is, strings whose code units are below 256. The empty
  string is the only falsy string, so \<open>!s\<close> is \<open>s = []\<close>.
\<close>

definition substring :: "string \<Rightarrow> nat \<Rightarrow> nat \<Rightarrow> string" where
  \<comment> \<open>\<open>s.substring(a, b)\<close>: the arguments are swapped when \<open>a > b\<close>, and clamped to the length.\<close>
  "substring s a b = (let lo = min a b; hi = max a b in take (hi - lo) (drop lo s))"

definition split_first :: "char \<Rightarrow> string \<Rightarrow> string" where
  \<comment> \<open>\<open>s.split(sep)[0]\<close> for a one-character separator: the part before its first occurrence.\<close>
  "split_first sep s = takeWhile (\<lambda>c. c \<noteq> sep) s"

definition char_at :: "string \<Rightarrow> nat \<Rightarrow> string option" where
  \<comment> \<open>\<open>s[i]\<close> (also \<open>s?.[i]\<close> on a string): \<open>undefined\<close> out of range, here \<open>None\<close>.\<close>
  "char_at s i = (if i < length s then Some [s ! i] else None)"

text \<open>
  \<open>Array.prototype.sort(cmp)\<close> is a stable sort: \<open>a\<close> goes before \<open>b\<close> when \<open>cmp a b < 0\<close>,
  after it when \<open>cmp a b > 0\<close>, and elements that compare as 0 keep their order. It is
  modelled by a stable insertion sort driven by the comparator.
\<close>

fun insert_cmp :: "('a \<Rightarrow> 'a \<Rightarrow> 'b::{zero,ord}) \<Rightarrow> 'a \<Rightarrow> 'a list \<Rightarrow> 'a list" where
  "insert_cmp cmp x [] = [x]"
| "insert_cmp cmp x (y # ys) = (if cmp x y \<le> 0 then x # y # ys else y # insert_cmp cmp x ys)"

definition array_sort :: "('a \<Rightarrow> 'a \<Rightarrow> 'b::{zero,ord}) \<Rightarrow> 'a list \<Rightarrow> 'a list" where
  "array_sort cmp xs = foldr (insert_cmp cmp) xs []"

text \<open>
  \<open>String.prototype.localeCompare\<close> is the collation of the host, not code of this
  repository: the taxonomy builder takes it as a parameter, and the theorems about the
  builder are stated for every such parameter. \<open>lex_compare\<close>, the lexicographic comparison
  of code units, is one collation; it is used in examples only.
\<close>

definition lex_compare :: "string \<Rightarrow> string \<Rightarrow> int" where
  "lex_compare a b = (if a < b then - 1 else if a = b then 0 else 1)"

section \<open>Data model (lib/types.ts)\<close>

record occupation =
  userLink :: string
  keyId :: string
  iscoGroupCode :: string
  code :: string
  preferredLabel :: string
  exampleAlternateDesignation :: string
  coreDescription :: string
  iscoTaxIncluded :: string
  definition_text :: string
  scopeNote :: string
  regulatedProfessionNote :: string
  occupationType :: string
  status :: string

text \<open>
  \<open>OccupationGroup\<close> has a code, a name and a list of children, each child an
  \<open>OccupationGroup\<close> or an \<open>Occupation\<close>. The source tells them apart by
  \<open>'children' in child\<close>; here the constructor is the tag.
\<close>

datatype node =
    Group (group_code: string) (group_name: string) (children: "node list")
  | Occ occupation

fun node_code :: "node \<Rightarrow> string" where
  \<comment> \<open>\<open>'code' in a ? a.code : (a as Occupation).code\<close>: the same key for both kinds of child.\<close>
  "node_code (Group c n cs) = c"
| "node_code (Occ occ) = code occ"

section \<open>Category names (lib/occupations.ts)\<close>

definition majorGroupNames :: "(string \<times> string) list" where
  "majorGroupNames =
    [(''0'', ''Armed forces occupations''),
     (''1'', ''Managers''),
     (''2'', ''Professionals''),
     (''3'', ''Technicians and associate professionals''),
     (''4'', ''Clerical support workers''),
     (''5'', ''Service and sales workers''),
     (''6'', ''Skilled agricultural, forestry and fishery workers''),
     (''7'', ''Craft and related trades workers''),
     (''8'', ''Plant and machine operators, and assemblers''),
     (''9'', ''Elementary occupations'')]"

definition subMajorGroupNames :: "(string \<times> string) list" where
  "subMajorGroupNames =
    [(''11'', ''Chief executives, senior officials and legislators''),
     (''12'', ''Administrative and commercial managers''),
     (''13'', ''Production and specialised services managers''),
     (''14'', ''Hospitality, retail and other services managers''),
     (''21'', ''Science and engineering professionals''),
     (''22'', ''Health professionals''),
     (''23'', ''Teaching professionals''),
     (''24'', ''Business and administration professionals''),
     (''25'', ''Information and communications technology professionals''),
     (''26'', ''Legal, social and cultural professionals''),
     (''31'', ''Science and engineering associate professionals''),
     (''32'', ''Health associate professionals''),
     (''33'', ''Business and administration associate professionals''),
     (''34'', ''Legal, social, cultural and related associate professionals''),
     (''35'', ''Information and communications technicians''),
     (''41'', ''General and keyboard clerks''),
     (''42'', ''Customer services clerks''),
     (''43'', ''Numerical and material recording clerks''),
     (''44'', ''Other clerical support workers''),
     (''51'', ''Personal service workers''),
     (''52'', ''Sales workers''),
     (''53'', ''Personal care workers''),
     (''54'', ''Protective services workers''),
     (''61'', ''Market-oriented skilled agricultural workers''),
     (''62'', ''Market-oriented skilled forestry, fishery and hunting workers''),
     (''63'', ''Subsistence farmers, fishers, hunters and gatherers''),
     (''71'', ''Building and related trades workers, excluding electricians''),
     (''72'', ''Metal, machinery and related trades workers''),
     (''73'', ''Handicraft and printing workers''),
     (''74'', ''Electrical and electronic trades workers''),
     (''75'', ''Food processing, wood working, garment and other craft workers''),
     (''81'', ''Stationary plant and machine operators''),
     (''82'', ''Assemblers''),
     (''83'', ''Drivers and mobile plant operators''),
     (''91'', ''Cleaners and helpers''),
     (''92'', ''Agricultural, forestry and fishery labourers''),
     (''93'', ''Labourers in mining, construction, manufacturing and transport''),
     (''94'', ''Food preparation assistants''),
     (''95'', ''Street and related sales and service workers''),
     (''96'', ''Refuse workers and other elementary workers'')]"

definition minorGroupNames :: "(string \<times> string) list" where
  "minorGroupNames =
    [(''111'', ''Legislators and senior officials''),
     (''112'', ''Managing directors and chief executives''),
     (''121'', ''Business services and administration managers''),
     (''122'', ''Sales, marketing and development managers''),
     (''131'', ''Production managers in agriculture, forestry and fisheries''),
     (''132'', ''Manufacturing, mining, construction, and distribution managers''),
     (''133'', ''Information and communications technology service managers''),
     (''134'', ''Professional services managers''),
     (''141'', ''Hotel and restaurant managers''),
     (''142'', ''Retail and wholesale trade managers''),
     (''143'', ''Other services managers''),
     (''211'', ''Physical and earth science professionals''),
     (''212'', ''Mathematicians, actuaries and statisticians''),
     (''213'', ''Life science professionals''),
     (''214'', ''Engineering professionals (excluding electrotechnology)''),
     (''215'', ''Electrotechnology engineers''),
     (''216'', ''Architects, planners, surveyors and designers''),
     (''221'', ''Medical doctors''),
     (''222'', ''Nursing and midwifery professionals''),
     (''223'', ''Traditional and complementary medicine professionals''),
     (''224'', ''Paramedical practitioners''),
     (''225'', ''Veterinarians''),
     (''226'', ''Other health professionals''),
     (''231'', ''University and higher education teachers''),
     (''232'', ''Vocational education teachers''),
     (''233'', ''Secondary education teachers''),
     (''234'', ''Primary school and early childhood teachers''),
     (''235'', ''Other teaching professionals''),
     (''241'', ''Finance professionals''),
     (''242'', ''Administration professionals''),
     (''243'', ''Sales, marketing and public relations professionals''),
     (''251'', ''Software and applications developers and analysts''),
     (''252'', ''Database and network professionals''),
     (''261'', ''Legal professionals''),
     (''262'', ''Librarians, archivists and curators''),
     (''263'', ''Social and religious professionals''),
     (''264'', ''Authors, journalists and linguists''),
     (''265'', ''Creative and performing artists''),
     (''311'', ''Physical and engineering science technicians''),
     (''312'', ''Mining, manufacturing and construction supervisors''),
     (''313'', ''Process control technicians''),
     (''314'', ''Life science technicians and related associate professionals''),
     (''315'', ''Ship and aircraft controllers and technicians''),
     (''321'', ''Medical and pharmaceutical technicians''),
     (''322'', ''Nursing and midwifery associate professionals''),
     (''323'', ''Traditional and complementary medicine associate professionals''),
     (''324'', ''Veterinary technicians and assistants''),
     (''325'', ''Other health associate professionals''),
     (''331'', ''Financial and mathematical associate professionals''),
     (''332'', ''Sales and purchasing agents and brokers''),
     (''333'', ''Business services agents''),
     (''334'', ''Administrative and specialised secretaries''),
     (''335'', ''Regulatory government associate professionals''),
     (''341'', ''Legal, social and religious associate professionals''),
     (''342'', ''Sports and fitness workers''),
     (''343'', ''Artistic, cultural and culinary associate professionals''),
     (''351'', ''Information and communications technology operations technicians''),
     (''352'', ''Telecommunications and broadcasting technicians'')]"

definition unitGroupNames :: "(string \<times> string) list" where
  "unitGroupNames =
    [(''1111'', ''Legislators''),
     (''1112'', ''Senior government officials''),
     (''1113'', ''Traditional chiefs and heads of village''),
     (''1114'', ''Senior officials of special-interest organisations''),
     (''1120'', ''Managing directors and chief executives''),
     (''1211'', ''Finance managers''),
     (''1212'', ''Human resource managers''),
     (''1213'', ''Policy and planning managers''),
     (''1219'', ''Business services and administration managers not elsewhere classified''),
     (''1221'', ''Sales and marketing managers''),
     (''1222'', ''Advertising and public relations managers''),
     (''1223'', ''Research and development managers''),
     (''1311'', ''Agricultural and forestry production managers''),
     (''1312'', ''Aquaculture and fisheries production managers''),
     (''1321'', ''Manufacturing managers''),
     (''1322'', ''Mining managers''),
     (''1323'', ''Construction managers''),
     (''1324'', ''Supply, distribution and related managers''),
     (''1330'', ''Information and communications technology service managers''),
     (''1341'', ''Child care services managers''),
     (''1342'', ''Health services managers''),
     (''1343'', ''Aged care services managers''),
     (''1344'', ''Social welfare managers''),
     (''1345'', ''Education managers''),
     (''1346'', ''Financial and insurance services branch managers''),
     (''1349'', ''Professional services managers not elsewhere classified''),
     (''1411'', ''Hotel managers''),
     (''1412'', ''Restaurant managers''),
     (''1420'', ''Retail and wholesale trade managers''),
     (''1431'', ''Sports, recreation and cultural centre managers''),
     (''1439'', ''Services managers not elsewhere classified''),
     (''2111'', ''Physicists and astronomers''),
     (''2112'', ''Meteorologists''),
     (''2113'', ''Chemists''),
     (''2114'', ''Geologists and geophysicists''),
     (''2120'', ''Mathematicians, actuaries and statisticians''),
     (''2131'', ''Biologists, botanists, zoologists and related professionals''),
     (''2132'', ''Farming, forestry and fisheries advisers''),
     (''2133'', ''Environmental protection professionals''),
     (''2141'', ''Industrial and production engineers''),
     (''2142'', ''Civil engineers''),
     (''2143'', ''Environmental engineers''),
     (''2144'', ''Mechanical engineers''),
     (''2145'', ''Chemical engineers''),
     (''2146'', ''Mining engineers, metallurgists and related professionals''),
     (''2149'', ''Engineering professionals not elsewhere classified''),
     (''2151'', ''Electrical engineers''),
     (''2152'', ''Electronics engineers''),
     (''2153'', ''Telecommunications engineers''),
     (''2161'', ''Building architects''),
     (''2162'', ''Landscape architects''),
     (''2163'', ''Product and garment designers''),
     (''2164'', ''Town and traffic planners''),
     (''2165'', ''Cartographers and surveyors''),
     (''2166'', ''Graphic and multimedia designers'')]"

definition lookup_name :: "(string \<times> string) list \<Rightarrow> string \<Rightarrow> string" where
  \<comment> \<open>\<open>names[code] || `Group ${code}`\<close>\<close>
  "lookup_name names c = (case map_of names c of Some n \<Rightarrow> n | None \<Rightarrow> ''Group '' @ c)"

definition getMajorGroupName :: "string \<Rightarrow> string" where
  "getMajorGroupName c = lookup_name majorGroupNames c"

definition getSubMajorGroupName :: "string \<Rightarrow> string" where
  "getSubMajorGroupName c = lookup_name subMajorGroupNames c"

definition getMinorGroupName :: "string \<Rightarrow> string" where
  "getMinorGroupName c = lookup_name minorGroupNames c"

definition getUnitGroupName :: "string \<Rightarrow> string" where
  "getUnitGroupName c = lookup_name unitGroupNames c"

section \<open>Taxonomy builder (lib/occupations.ts, organizeOccupations)\<close>

text \<open>
  The source looks a group up among the children of its parent (\<open>find\<close>, the first child
  that is a group with the wanted code), creates it with no children and pushes it when it
  is missing, and then mutates the children of the group it holds. \<open>with_group c name k\<close>
  is that step on the list of children: \<open>k\<close> is what the rest of the loop body does to
  the children of the group.

  The top-level \<open>Map\<close> from major code to group is only ever written with a group stored
  under its own code, and read back in insertion order (\<open>groups.values()\<close>); it is
  represented by the list of its values in insertion order.
\<close>

fun with_group :: "string \<Rightarrow> string \<Rightarrow> (node list \<Rightarrow> node list) \<Rightarrow> node list \<Rightarrow> node list" where
  "with_group c name k [] = [Group c name (k [])]"
| "with_group c name k (Group c' name' cs # rest) =
     (if c' = c then Group c' name' (k cs) # rest
      else Group c' name' cs # with_group c name k rest)"
| "with_group c name k (Occ occ # rest) = Occ occ # with_group c name k rest"

definition push :: "'a \<Rightarrow> 'a list \<Rightarrow> 'a list" where
  "push x xs = xs @ [x]"

definition addOccupation :: "occupation \<Rightarrow> node list \<Rightarrow> node list" where
  \<comment> \<open>The body of \<open>occupations.forEach\<close>, on the values of the \<open>groups\<close> map.\<close>
  "addOccupation occupation groups =
    (if code occupation = [] then groups
     else
       let mainCode = split_first CHR ''.'' (code occupation) in
       if mainCode = [] \<or> length mainCode < 1 then groups
       else
         let majorGroup = [hd mainCode];
             subMajorGroup = substring mainCode 0 2;
             minorGroup = substring mainCode 0 3;
             unitGroup = mainCode
         in
         with_group majorGroup (getMajorGroupName majorGroup)
           (\<lambda>majorChildren.
             if length subMajorGroup = 2 then
               with_group subMajorGroup (getSubMajorGroupName subMajorGroup)
                 (\<lambda>subMajorChildren.
                   if length minorGroup = 3 then
                     with_group minorGroup (getMinorGroupName minorGroup)
                       (\<lambda>minorChildren.
                         if length unitGroup = 4 then
                           with_group unitGroup (getUnitGroupName unitGroup)
                             (push (Occ occupation)) minorChildren
                         else push (Occ occupation) minorChildren)
                       subMajorChildren
                   else if length unitGroup = 4 then
                     with_group unitGroup (getUnitGroupName unitGroup)
                       (push (Occ occupation)) subMajorChildren
                   else push (Occ occupation) subMajorChildren)
                 majorChildren
             else push (Occ occupation) majorChildren)
           groups)"

definition by_code :: "(string \<Rightarrow> string \<Rightarrow> int) \<Rightarrow> node \<Rightarrow> node \<Rightarrow> int" where
  \<comment> \<open>The comparator of both sorts: \<open>aCode.localeCompare(bCode)\<close>.\<close>
  "by_code localeCompare a b = localeCompare (node_code a) (node_code b)"

lemma set_insert_cmp: "set (insert_cmp cmp x xs) = insert x (set xs)"
  by (induction xs) auto

lemma set_array_sort: "set (array_sort cmp xs) = set xs"
  by (induction xs) (auto simp: array_sort_def set_insert_cmp)

function sortChildren :: "(string \<Rightarrow> string \<Rightarrow> int) \<Rightarrow> node \<Rightarrow> node" where
  "sortChildren localeCompare (Group c name cs) =
     Group c name (map (sortChildren localeCompare) (array_sort (by_code localeCompare) cs))"
| "sortChildren localeCompare (Occ occ) = Occ occ"
  by pat_completeness auto
termination
  by (relation "measure (\<lambda>(f, n). size n)") (auto simp: set_array_sort less_Suc_eq_le size_list_estimation')

definition organizeOccupations :: "(string \<Rightarrow> string \<Rightarrow> int) \<Rightarrow> occupation list \<Rightarrow> node list" where
  "organizeOccupations localeCompare occupations =
    (let groups = foldl (\<lambda>g occupation. addOccupation occupation g) [] occupations;
         sortedGroups = array_sort (by_code localeCompare) groups
     in map (sortChildren localeCompare) sortedGroups)"


section \<open>Regular expressions of the host language\<close>

text \<open>
  \<open>new RegExp(pattern, 'i')\<close> and \<open>RegExp.prototype.test\<close> are modelled on a fragment of
  the ECMAScript pattern syntax (without the \<open>u\<close> flag): pattern characters, \<open>.\<close>,
  the assertions \<open>\b\<close>, \<open>\B\<close>, \<open>^\<close> and \<open>$\<close>, escaped syntax characters, the
  quantifiers \<open>*\<close>, \<open>+\<close> and \<open>?\<close> (greedy or lazy), groups and alternation. Every other
  construct (character classes, braces, other escapes, group specifiers \<open>(?\<close>) gives
  \<open>NotModelled\<close>. A pattern outside the grammar gives \<open>SyntaxError\<close>, the exception the
  constructor throws. Patterns are read left to right, and the first of the two decides.
\<close>

datatype failure = SyntaxError | NotModelled

datatype regex =
    Empty
  | Chr char
  | AnyChar
  | Bound
  | NotBound
  | LineStart
  | LineEnd
  | Cat regex regex
  | Or regex regex
  | Star regex

datatype token =
    TChar char | TDot | TStar | TPlus | TQuest | TLParen | TRParen | TBar
  | TBound | TNotBound | TCaret | TDollar | TUnsupported | TDangling

definition backslash :: char where
  "backslash = CHR 0x5C"

definition syntax_chars :: "char list" where
  \<comment> \<open>SyntaxCharacter: \<open>^ $ \ . * + ? ( ) [ ] { } |\<close>\<close>
  "syntax_chars = backslash # ''^$.*+?()[]{}|''"

definition escape_token :: "char \<Rightarrow> token" where
  \<comment> \<open>The token of \<open>\d\<close>, for the character \<open>d\<close> after a backslash.\<close>
  "escape_token d =
     (if d = CHR ''b'' then TBound
      else if d = CHR ''B'' then TNotBound
      else if d \<in> set syntax_chars \<or> d = CHR ''/'' then TChar d
      else TUnsupported)"

definition char_token :: "char \<Rightarrow> token" where
  "char_token c =
     (if c = CHR ''.'' then TDot
      else if c = CHR ''*'' then TStar
      else if c = CHR ''+'' then TPlus
      else if c = CHR ''?'' then TQuest
      else if c = CHR ''('' then TLParen
      else if c = CHR '')'' then TRParen
      else if c = CHR ''|'' then TBar
      else if c = CHR ''^'' then TCaret
      else if c = CHR ''$'' then TDollar
      else if c \<in> set ''[]{}'' then TUnsupported
      else TChar c)"

fun tokens :: "string \<Rightarrow> token list" where
  "tokens [] = []"
| "tokens [c] = (if c = backslash then [TDangling] else [char_token c])"
| "tokens (c # d # cs) =
     (if c = backslash then escape_token d # tokens cs else char_token c # tokens (d # cs))"

text \<open>
  The parser keeps the alternatives and the terms (latest first) of the group it is in, a
  stack of the same for the enclosing groups, and what the latest term allows: a
  quantifier (\<open>AtomTerm\<close>), only the lazy mark \<open>?\<close> (\<open>QuantTerm\<close>), or neither.
\<close>

datatype last_term = NoTerm | AtomTerm | QuantTerm

definition seq_of :: "regex list \<Rightarrow> regex" where
  "seq_of terms = foldl (\<lambda>acc t. Cat t acc) Empty terms"

fun alt_of :: "regex list \<Rightarrow> regex" where
  "alt_of [] = Empty"
| "alt_of [r] = r"
| "alt_of (r # rs) = Or r (alt_of rs)"

definition close_group :: "regex list \<Rightarrow> regex list \<Rightarrow> regex" where
  "close_group alts terms = alt_of (alts @ [seq_of terms])"

fun parse :: "token list \<Rightarrow> (regex list \<times> regex list) list \<Rightarrow> regex list \<Rightarrow> regex list
    \<Rightarrow> last_term \<Rightarrow> failure + regex" where
  "parse [] stack alts terms prev =
     (if stack = [] then Inr (close_group alts terms) else Inl SyntaxError)"
| "parse (t # ts) stack alts terms prev =
     (case t of
        TChar c \<Rightarrow> parse ts stack alts (Chr c # terms) AtomTerm
      | TDot \<Rightarrow> parse ts stack alts (AnyChar # terms) AtomTerm
      | TBound \<Rightarrow> parse ts stack alts (Bound # terms) NoTerm
      | TNotBound \<Rightarrow> parse ts stack alts (NotBound # terms) NoTerm
      | TCaret \<Rightarrow> parse ts stack alts (LineStart # terms) NoTerm
      | TDollar \<Rightarrow> parse ts stack alts (LineEnd # terms) NoTerm
      | TStar \<Rightarrow>
          (case (prev, terms) of
             (AtomTerm, r # rs) \<Rightarrow> parse ts stack alts (Star r # rs) QuantTerm
           | _ \<Rightarrow> Inl SyntaxError)
      | TPlus \<Rightarrow>
          (case (prev, terms) of
             (AtomTerm, r # rs) \<Rightarrow> parse ts stack alts (Cat r (Star r) # rs) QuantTerm
           | _ \<Rightarrow> Inl SyntaxError)
      | TQuest \<Rightarrow>
          (case (prev, terms) of
             (AtomTerm, r # rs) \<Rightarrow> parse ts stack alts (Or r Empty # rs) QuantTerm
           | (QuantTerm, _) \<Rightarrow> parse ts stack alts terms NoTerm
           | _ \<Rightarrow> Inl SyntaxError)
      | TLParen \<Rightarrow>
          (case ts of
             TQuest # _ \<Rightarrow> Inl NotModelled
           | _ \<Rightarrow> parse ts ((alts, terms) # stack) [] [] NoTerm)
      | TRParen \<Rightarrow>
          (case stack of
             [] \<Rightarrow> Inl SyntaxError
           | (outer_alts, outer_terms) # stack' \<Rightarrow>
               parse ts stack' outer_alts (close_group alts terms # outer_terms) AtomTerm)
      | TBar \<Rightarrow> parse ts stack (alts @ [seq_of terms]) [] NoTerm
      | TUnsupported \<Rightarrow> Inl NotModelled
      | TDangling \<Rightarrow> Inl SyntaxError)"

definition RegExp :: "string \<Rightarrow> string \<Rightarrow> failure + regex" where
  \<comment> \<open>\<open>new RegExp(pattern, flags)\<close>; the source passes the flags \<open>'i'\<close> only.\<close>
  "RegExp pattern flags =
     (if flags = ''i'' then parse (tokens pattern) [] [] [] NoTerm else Inl NotModelled)"

definition in_range :: "char \<Rightarrow> nat \<Rightarrow> nat \<Rightarrow> bool" where
  "in_range c lo hi = (lo \<le> of_char c \<and> (of_char c :: nat) \<le> hi)"

definition canonicalize :: "char \<Rightarrow> char" where
  \<comment> \<open>Canonicalize of a case-insensitive pattern without the \<open>u\<close> flag: the upper-case form.
      The two code units below 256 whose upper-case form is above 255 (181 and 255) are
      equivalent to no other code unit below 256 and stand for themselves.\<close>
  "canonicalize c =
     (if in_range c 97 122 \<or> (in_range c 224 254 \<and> of_char c \<noteq> (247 :: nat))
      then char_of (of_char c - 32 :: nat) else c)"

definition is_word_char :: "char \<Rightarrow> bool" where
  \<comment> \<open>\<open>[A-Za-z0-9_]\<close>\<close>
  "is_word_char c = (in_range c 65 90 \<or> in_range c 97 122 \<or> in_range c 48 57 \<or> c = CHR ''_'')"

definition is_boundary :: "string \<Rightarrow> nat \<Rightarrow> bool" where
  "is_boundary s i =
     ((0 < i \<and> i \<le> length s \<and> is_word_char (s ! (i - 1))) \<noteq> (i < length s \<and> is_word_char (s ! i)))"

definition is_line_terminator :: "char \<Rightarrow> bool" where
  "is_line_terminator c = (of_char c = (10 :: nat) \<or> of_char c = (13 :: nat))"

fun star_ends :: "nat \<Rightarrow> (nat \<Rightarrow> nat list) \<Rightarrow> nat list \<Rightarrow> nat list" where
  "star_ends 0 f ends = ends"
| "star_ends (Suc n) f ends = star_ends n f (remdups (ends @ concat (map f ends)))"

fun match_ends :: "regex \<Rightarrow> string \<Rightarrow> nat \<Rightarrow> nat list" where
  \<comment> \<open>The positions where a match of the expression that starts at position \<open>i\<close> can end.\<close>
  "match_ends Empty s i = [i]"
| "match_ends (Chr c) s i =
     (if i < length s \<and> canonicalize (s ! i) = canonicalize c then [Suc i] else [])"
| "match_ends AnyChar s i =
     (if i < length s \<and> \<not> is_line_terminator (s ! i) then [Suc i] else [])"
| "match_ends Bound s i = (if is_boundary s i then [i] else [])"
| "match_ends NotBound s i = (if is_boundary s i then [] else [i])"
| "match_ends LineStart s i = (if i = 0 then [i] else [])"
| "match_ends LineEnd s i = (if i = length s then [i] else [])"
| "match_ends (Cat r1 r2) s i = concat (map (match_ends r2 s) (match_ends r1 s i))"
| "match_ends (Or r1 r2) s i = match_ends r1 s i @ match_ends r2 s i"
| "match_ends (Star r) s i = star_ends (Suc (length s)) (match_ends r s) [i]"

definition regexp_test :: "regex \<Rightarrow> string \<Rightarrow> bool" where
  \<comment> \<open>\<open>regex.test(s)\<close> without the flags \<open>g\<close> and \<open>y\<close>: is there a match anywhere in \<open>s\<close>.\<close>
  "regexp_test r s = list_ex (\<lambda>i. match_ends r s i \<noteq> []) [0..<Suc (length s)]"

section \<open>Search engine (lib/search.ts)\<close>

definition is_white_space :: "char \<Rightarrow> bool" where
  \<comment> \<open>White space and line terminators among the code units below 256.\<close>
  "is_white_space c = (of_char c \<in> {9, 10, 11, 12, 13, 32, 160 :: nat})"

definition trim :: "string \<Rightarrow> string" where
  "trim s = rev (dropWhile is_white_space (rev (dropWhile is_white_space s)))"

definition to_lower_char :: "char \<Rightarrow> char" where
  "to_lower_char c =
     (if in_range c 65 90 \<or> (in_range c 192 222 \<and> of_char c \<noteq> (215 :: nat))
      then char_of (of_char c + 32 :: nat) else c)"

definition toLowerCase :: "string \<Rightarrow> string" where
  "toLowerCase s = map to_lower_char s"

definition str_includes :: "string \<Rightarrow> string \<Rightarrow> bool" where
  \<comment> \<open>\<open>s.includes(t)\<close>: \<open>t\<close> occurs in \<open>s\<close> as a contiguous substring.\<close>
  "str_includes s t = sublist t s"

fun join :: "string \<Rightarrow> string list \<Rightarrow> string" where
  "join sep [] = []"
| "join sep [x] = x"
| "join sep (x # y # ys) = x @ sep @ join sep (y # ys)"

definition array_slice0 :: "'a list \<Rightarrow> int \<Rightarrow> 'a list" where
  \<comment> \<open>\<open>xs.slice(0, n)\<close> for an integer \<open>n\<close>: a negative \<open>n\<close> counts from the end.\<close>
  "array_slice0 xs n = take (if n < 0 then nat (int (length xs) + n) else nat n) xs"

record search_match =
  key :: string
  matched_value :: string
  indices :: "(nat \<times> nat) list"

record search_result = occupation +
  score :: real
  matches :: "search_match list"
  breadcrumb :: string

record search_filters =
  iscoMajorGroups :: "string list"
  occupationTypes :: "string list"

text \<open>
  Fuse.js is a library, not code of this repository. The engine holds the search function
  of its index as a field; the constructor of the index is a parameter of the constructor
  of the engine. A result of Fuse.js has an item, and a score, matches, and the key, value
  and indices of a match that may each be absent.
\<close>

record fuse_match =
  fuse_key :: "string option"
  fuse_value :: "string option"
  fuse_indices :: "(nat \<times> nat) list option"

record fuse_result =
  item :: occupation
  fuse_score :: "real option"
  fuse_matches :: "fuse_match list option"

record engine =
  fuse :: "string \<Rightarrow> int \<Rightarrow> fuse_result list"
  occupations :: "occupation list"

definition EnhancedSearchEngine ::
    "(occupation list \<Rightarrow> string \<Rightarrow> int \<Rightarrow> fuse_result list) \<Rightarrow> occupation list \<Rightarrow> engine" where
  "EnhancedSearchEngine Fuse occs = \<lparr>fuse = Fuse occs, occupations = occs\<rparr>"

definition engineMajorGroupNames :: "(string \<times> string) list" where
  "engineMajorGroupNames =
    [(''0'', ''Armed forces occupations''),
     (''1'', ''Managers''),
     (''2'', ''Professionals''),
     (''3'', ''Technicians and associate professionals''),
     (''4'', ''Clerical support workers''),
     (''5'', ''Service and sales workers''),
     (''6'', ''Skilled agricultural, forestry and fishery workers''),
     (''7'', ''Craft and related trades workers''),
     (''8'', ''Plant and machine operators, and assemblers''),
     (''9'', ''Elementary occupations'')]"

definition engineSubMajorGroupNames :: "(string \<times> string) list" where
  "engineSubMajorGroupNames =
    [(''11'', ''Chief executives, senior officials and legislators''),
     (''12'', ''Administrative and commercial managers''),
     (''13'', ''Production and specialised services managers''),
     (''14'', ''Hospitality, retail and other services managers''),
     (''21'', ''Science and engineering professionals''),
     (''22'', ''Health professionals''),
     (''23'', ''Teaching professionals''),
     (''24'', ''Business and administration professionals''),
     (''25'', ''Information and communications technology professionals''),
     (''26'', ''Legal, social and cultural professionals'')]"

definition engineMinorGroupNames :: "(string \<times> string) list" where
  "engineMinorGroupNames =
    [(''111'', ''Legislators and senior officials''),
     (''112'', ''Managing directors and chief executives''),
     (''121'', ''Business services and administration managers''),
     (''122'', ''Sales, marketing and development managers''),
     (''211'', ''Physical and earth science professionals''),
     (''212'', ''Mathematicians, actuaries and statisticians'')]"

definition engine_getMajorGroupName :: "string \<Rightarrow> string" where
  "engine_getMajorGroupName c = lookup_name engineMajorGroupNames c"

definition engine_getSubMajorGroupName :: "string \<Rightarrow> string" where
  "engine_getSubMajorGroupName c = lookup_name engineSubMajorGroupNames c"

definition engine_getMinorGroupName :: "string \<Rightarrow> string" where
  "engine_getMinorGroupName c = lookup_name engineMinorGroupNames c"

definition matchesFilters :: "'a occupation_scheme \<Rightarrow> search_filters \<Rightarrow> bool" where
  "matchesFilters occupation filters =
     (if length (iscoMajorGroups filters) > 0 \<and>
         (case char_at (code occupation) 0 of
            None \<Rightarrow> True
          | Some majorGroup \<Rightarrow> majorGroup \<notin> set (iscoMajorGroups filters))
      then False
      else if length (occupationTypes filters) > 0 \<and>
         (occupationType occupation = [] \<or>
          occupationType occupation \<notin> set (occupationTypes filters))
      then False
      else True)"

definition generateBreadcrumb :: "'a occupation_scheme \<Rightarrow> string" where
  "generateBreadcrumb occupation =
     (let c = code occupation in
      if c = [] then []
      else
        let parts = [];
            parts = (case char_at c 0 of
                       Some majorCode \<Rightarrow>
                         push (majorCode @ '' - '' @ engine_getMajorGroupName majorCode) parts
                     | None \<Rightarrow> parts);
            parts = (if length c \<ge> 2
                     then let subMajorCode = substring c 0 2
                          in push (subMajorCode @ '' - '' @ engine_getSubMajorGroupName subMajorCode) parts
                     else parts);
            parts = (if length c \<ge> 3
                     then let minorCode = substring c 0 3
                          in push (minorCode @ '' - '' @ engine_getMinorGroupName minorCode) parts
                     else parts)
        in join '' > '' parts)"

definition to_result :: "occupation \<Rightarrow> real \<Rightarrow> search_match list \<Rightarrow> string \<Rightarrow> search_result" where
  \<comment> \<open>\<open>{ ...occ, score, matches, breadcrumb }\<close>\<close>
  "to_result occ s ms b = occupation.extend occ (search_result.fields s ms b)"

definition getFilteredOccupations :: "engine \<Rightarrow> search_filters option \<Rightarrow> search_result list" where
  "getFilteredOccupations this filters =
     (let results = occupations this;
          results = (case filters of
                       Some f \<Rightarrow> filter (\<lambda>occ. matchesFilters occ f) results
                     | None \<Rightarrow> results)
      in map (\<lambda>occ. to_result occ 1 [] (generateBreadcrumb occ)) results)"

definition applyFilters :: "search_result list \<Rightarrow> search_filters \<Rightarrow> search_result list" where
  "applyFilters results filters = filter (\<lambda>result. matchesFilters result filters) results"

definition boost_one :: "string \<Rightarrow> search_result \<Rightarrow> failure + search_result" where
  \<comment> \<open>The callback of \<open>results.map\<close> in \<open>boostRelevance\<close>; \<open>queryLower\<close> is computed by the caller.\<close>
  "boost_one queryLower result =
     (let boostedScore = score result;
          boostedScore = (if str_includes (toLowerCase (preferredLabel result)) queryLower
                          then boostedScore * 1.3 else boostedScore);
          boostedScore = (if str_includes (toLowerCase (code result)) queryLower
                          then boostedScore * 1.2 else boostedScore)
      in case RegExp ([backslash, CHR ''b''] @ queryLower) ''i'' of
           Inl e \<Rightarrow> Inl e
         | Inr wordBoundaryRegex \<Rightarrow>
             Inr (result\<lparr>score :=
               (if regexp_test wordBoundaryRegex (preferredLabel result)
                then boostedScore * 1.1 else boostedScore)\<rparr>))"

fun map_failing :: "('a \<Rightarrow> failure + 'b) \<Rightarrow> 'a list \<Rightarrow> failure + 'b list" where
  \<comment> \<open>\<open>xs.map(f)\<close> for a callback that may throw: the first exception ends the loop.\<close>
  "map_failing f [] = Inr []"
| "map_failing f (x # xs) =
     (case f x of
        Inl e \<Rightarrow> Inl e
      | Inr y \<Rightarrow> (case map_failing f xs of Inl e \<Rightarrow> Inl e | Inr ys \<Rightarrow> Inr (y # ys)))"

definition boostRelevance :: "search_result list \<Rightarrow> string \<Rightarrow> failure + search_result list" where
  "boostRelevance results query =
     (let queryLower = toLowerCase query in
      case map_failing (boost_one queryLower) results of
        Inl e \<Rightarrow> Inl e
      | Inr boosted \<Rightarrow> Inr (array_sort (\<lambda>a b. score b - score a) boosted))"

definition from_fuse_match :: "fuse_match \<Rightarrow> search_match" where
  "from_fuse_match m =
     \<lparr>key = (case fuse_key m of Some k \<Rightarrow> k | None \<Rightarrow> []),
      matched_value = (case fuse_value m of Some v \<Rightarrow> v | None \<Rightarrow> []),
      indices = (case fuse_indices m of Some ix \<Rightarrow> ix | None \<Rightarrow> [])\<rparr>"

definition from_fuse_result :: "fuse_result \<Rightarrow> search_result" where
  "from_fuse_result r =
     to_result (item r)
       (1 - (case fuse_score r of Some s \<Rightarrow> s | None \<Rightarrow> 0))
       (map from_fuse_match (case fuse_matches r of Some ms \<Rightarrow> ms | None \<Rightarrow> []))
       (generateBreadcrumb (item r))"

definition search :: "engine \<Rightarrow> string \<Rightarrow> search_filters option \<Rightarrow> int \<Rightarrow> failure + search_result list" where
  "search this query filters limit =
     (if trim query = [] then Inr (array_slice0 (getFilteredOccupations this filters) limit)
      else
        let fuseResults = fuse this query (limit * 2);
            searchResults = map from_fuse_result fuseResults;
            searchResults = (case filters of
                               Some f \<Rightarrow> applyFilters searchResults f
                             | None \<Rightarrow> searchResults)
        in case boostRelevance searchResults query of
             Inl e \<Rightarrow> Inl e
           | Inr boosted \<Rightarrow> Inr (array_slice0 boosted limit))"

definition getAvailableFilters :: "engine \<Rightarrow> search_filters" where
  \<comment> \<open>Two sets filled in one pass, then \<open>Array.from(set).sort()\<close>: the default sort compares
      strings by code units.\<close>
  "getAvailableFilters this =
     \<lparr>iscoMajorGroups = sort (remdups (List.map_filter (\<lambda>occ. char_at (code occ) 0) (occupations this))),
      occupationTypes = sort (remdups (filter (\<lambda>t. t \<noteq> []) (map occupationType (occupations this))))\<rparr>"


section \<open>Notions used in the statements and proofs\<close>

fun attached :: "occupation \<Rightarrow> string list \<Rightarrow> node list \<Rightarrow> bool" where
  "attached occ [] nodes = (Occ occ \<in> set nodes)"
| "attached occ (c # path) nodes =
     (\<exists>g\<in>set nodes. case g of Group c' name cs \<Rightarrow> c' = c \<and> attached occ path cs | Occ _ \<Rightarrow> False)"

fun records_of :: "node \<Rightarrow> occupation list" where
  "records_of (Occ occ) = [occ]"
| "records_of (Group c name cs) = concat (map records_of cs)"

fun groups_of :: "node \<Rightarrow> node list" where
  "groups_of (Occ occ) = []"
| "groups_of (Group c name cs) = Group c name cs # concat (map groups_of cs)"

fun insert_at :: "(string \<times> string) list \<Rightarrow> node \<Rightarrow> node list \<Rightarrow> node list" where
  "insert_at [] x = push x"
| "insert_at ((c, name) # path) x = with_group c name (insert_at path x)"

definition path_of :: "string \<Rightarrow> (string \<times> string) list" where
  "path_of m =
     (take 1 m, getMajorGroupName (take 1 m)) #
     (if 2 \<le> length m then
        (take 2 m, getSubMajorGroupName (take 2 m)) #
        (if 3 \<le> length m then
           (take 3 m, getMinorGroupName (take 3 m)) #
           (if length m = 4 then [(m, getUnitGroupName m)] else [])
         else [])
      else [])"

definition main_code :: "occupation \<Rightarrow> string" where
  "main_code occ = split_first CHR ''.'' (code occ)"

definition build :: "occupation list \<Rightarrow> node list" where
  "build occs = foldl (\<lambda>g occupation. addOccupation occupation g) [] occs"

fun pref_ok :: "node \<Rightarrow> bool" where
  "pref_ok (Occ occ) = True"
| "pref_ok (Group c name cs) =
     ((\<forall>r\<in>set (concat (map records_of cs)). prefix c (code r)) \<and> (\<forall>x\<in>set cs. pref_ok x))"

definition all_records :: "node list \<Rightarrow> occupation set" where
  "all_records xs = (\<Union>x\<in>set xs. set (records_of x))"

fun level_ok :: "nat \<Rightarrow> node \<Rightarrow> bool" where
  "level_ok d (Occ occ) = True"
| "level_ok d (Group c name cs) = (length c = Suc d \<and> (\<forall>x\<in>set cs. level_ok (Suc d) x))"

fun path_ok :: "nat \<Rightarrow> (string \<times> string) list \<Rightarrow> bool" where
  "path_ok d [] = True"
| "path_ok d ((c, name) # p) = (length c = Suc d \<and> path_ok (Suc d) p)"

text \<open>
  The codes of the groups in a list of children, and the trees in which no two groups among
  the children of one group have the same code.
\<close>

fun group_codes :: "node list \<Rightarrow> string list" where
  "group_codes [] = []"
| "group_codes (Group c name cs # rest) = c # group_codes rest"
| "group_codes (Occ occ # rest) = group_codes rest"

fun unique_groups :: "node \<Rightarrow> bool" where
  "unique_groups (Occ occ) = True"
| "unique_groups (Group c name cs) = (distinct (group_codes cs) \<and> (\<forall>x\<in>set cs. unique_groups x))"

definition unique_forest :: "node list \<Rightarrow> bool" where
  "unique_forest xs \<longleftrightarrow> distinct (group_codes xs) \<and> (\<forall>x\<in>set xs. unique_groups x)"

text \<open>
  What is known of the host collation: any two strings are comparable, and the comparison
  is transitive. Two strings tie when each is before or equal to the other.
\<close>

definition collation :: "(string \<Rightarrow> string \<Rightarrow> int) \<Rightarrow> bool" where
  "collation cmp \<longleftrightarrow>
     (\<forall>a b. cmp a b \<le> 0 \<or> cmp b a \<le> 0) \<and>
     (\<forall>a b c. cmp a b \<le> 0 \<longrightarrow> cmp b c \<le> 0 \<longrightarrow> cmp a c \<le> 0)"

definition ties :: "(string \<Rightarrow> string \<Rightarrow> int) \<Rightarrow> string \<Rightarrow> string \<Rightarrow> bool" where
  "ties cmp a b \<longleftrightarrow> cmp a b \<le> 0 \<and> cmp b a \<le> 0"

fun insert_after :: "('a \<Rightarrow> 'a \<Rightarrow> int) \<Rightarrow> 'a \<Rightarrow> 'a list \<Rightarrow> 'a list" where
  "insert_after f x [] = [x]"
| "insert_after f x (y # ys) = (if f y x \<le> 0 then y # insert_after f x ys else x # y # ys)"

fun ordered_node :: "(string \<Rightarrow> string \<Rightarrow> int) \<Rightarrow> node \<Rightarrow> bool" where
  "ordered_node cmp (Occ occ) = True"
| "ordered_node cmp (Group c name cs) =
     (sorted_wrt (\<lambda>a b. by_code cmp a b \<le> 0) cs \<and> (\<forall>x\<in>set cs. ordered_node cmp x))"

text \<open>
  For the proof that the order of the input does not matter: the insertion of a record into
  a tree that is kept sorted, which is what sorting after every insertion would give.
\<close>

fun has_group :: "string \<Rightarrow> node list \<Rightarrow> bool" where
  "has_group c [] = False"
| "has_group c (Group c' name cs # rest) = (c' = c \<or> has_group c rest)"
| "has_group c (Occ occ # rest) = has_group c rest"

fun update_group :: "string \<Rightarrow> (node list \<Rightarrow> node list) \<Rightarrow> node list \<Rightarrow> node list" where
  "update_group c k [] = []"
| "update_group c k (Group c' name cs # rest) =
     (if c' = c then Group c' name (k cs) # rest else Group c' name cs # update_group c k rest)"
| "update_group c k (Occ occ # rest) = Occ occ # update_group c k rest"

fun is_group_with :: "string \<Rightarrow> node \<Rightarrow> bool" where
  "is_group_with c (Group c' name cs) = (c' = c)"
| "is_group_with c (Occ occ) = False"

definition with_group_sorted ::
    "(string \<Rightarrow> string \<Rightarrow> int) \<Rightarrow> string \<Rightarrow> string \<Rightarrow> (node list \<Rightarrow> node list) \<Rightarrow> node list \<Rightarrow> node list" where
  "with_group_sorted cmp c name k xs =
     (if has_group c xs then update_group c k xs
      else insert_after (by_code cmp) (Group c name (k [])) xs)"

fun insert_sorted ::
    "(string \<Rightarrow> string \<Rightarrow> int) \<Rightarrow> (string \<times> string) list \<Rightarrow> node \<Rightarrow> node list \<Rightarrow> node list" where
  "insert_sorted cmp [] x = insert_after (by_code cmp) x"
| "insert_sorted cmp ((c, name) # path) x = with_group_sorted cmp c name (insert_sorted cmp path x)"

definition sort_forest :: "(string \<Rightarrow> string \<Rightarrow> int) \<Rightarrow> node list \<Rightarrow> node list" where
  "sort_forest cmp xs = map (sortChildren cmp) (array_sort (by_code cmp) xs)"

definition add_sorted :: "(string \<Rightarrow> string \<Rightarrow> int) \<Rightarrow> occupation \<Rightarrow> node list \<Rightarrow> node list" where
  "add_sorted cmp occ xs =
     (if main_code occ = [] then xs
      else insert_sorted cmp (path_of (main_code occ)) (Occ occ) xs)"

fun compat :: "(string \<times> string) list \<Rightarrow> node \<Rightarrow> (string \<times> string) list \<Rightarrow> node \<Rightarrow> bool" where
  "compat [] x [] y = (node_code x \<noteq> node_code y)"
| "compat [] x ((d, name') # q) y = (node_code x \<noteq> d)"
| "compat ((c, name) # p) x [] y = (node_code y \<noteq> c)"
| "compat ((c, name) # p) x ((d, name') # q) y = (c = d \<longrightarrow> name = name' \<and> compat p x q y)"

definition apart_keys :: "(string \<Rightarrow> string \<Rightarrow> int) \<Rightarrow> string set \<Rightarrow> bool" where
  "apart_keys cmp K \<longleftrightarrow> (\<forall>a\<in>K. \<forall>b\<in>K. ties cmp a b \<longrightarrow> a = b)"

definition level_name :: "nat \<Rightarrow> string \<Rightarrow> string" where
  "level_name d c =
     (if d = 0 then getMajorGroupName c
      else if d = 1 then getSubMajorGroupName c
      else if d = 2 then getMinorGroupName c
      else getUnitGroupName c)"

fun path_wf :: "nat \<Rightarrow> (string \<times> string) list \<Rightarrow> bool" where
  "path_wf d [] = True"
| "path_wf d ((c, name) # p) =
     (length c = Suc d \<and> CHR ''.'' \<notin> set c \<and> name = level_name d c \<and> path_wf (Suc d) p)"

definition fits :: "nat \<Rightarrow> string \<Rightarrow> bool" where
  "fits n s \<longleftrightarrow> CHR ''.'' \<notin> set s \<and> length s = Suc n"

text \<open>
  The sort keys that a record brings into the tree: its code, and the codes of the groups
  made from the part of the code before the first \<open>.\<close>.
\<close>

definition keys_of :: "occupation \<Rightarrow> string list" where
  "keys_of occ =
     (let m = split_first CHR ''.'' (code occ)
      in [code occ, take 1 m, take 2 m, take 3 m, m])"

text \<open>
  The filter as the specification words it: with a non-empty facet, the value of the record
  has to be one of the values of the facet; the major group of a record is the first
  character of its code.
\<close>

definition satisfies_filters :: "occupation \<Rightarrow> search_filters \<Rightarrow> bool" where
  "satisfies_filters occ filters \<longleftrightarrow>
     (iscoMajorGroups filters = [] \<or>
        (\<exists>g\<in>set (iscoMajorGroups filters). char_at (code occ) 0 = Some g)) \<and>
     (occupationTypes filters = [] \<or> occupationType occ \<in> set (occupationTypes filters))"

section \<open>Example inputs\<close>

definition developer :: occupation where
  "developer = \<lparr>userLink = [], keyId = ''1'', iscoGroupCode = ''2512'', code = ''2512'',
     preferredLabel = ''C++ developer'', exampleAlternateDesignation = [], coreDescription = [],
     iscoTaxIncluded = [], definition_text = [], scopeNote = [], regulatedProfessionNote = [],
     occupationType = ''Skill'', status = []\<rparr>"

definition analyst :: occupation where
  "analyst = \<lparr>userLink = [], keyId = ''2'', iscoGroupCode = ''2511'', code = ''2511'',
     preferredLabel = ''Systems analyst'', exampleAlternateDesignation = [], coreDescription = [],
     iscoTaxIncluded = [], definition_text = [], scopeNote = [], regulatedProfessionNote = [],
     occupationType = ''Occupation'', status = []\<rparr>"

definition unclassified :: occupation where
  "unclassified = \<lparr>userLink = [], keyId = ''3'', iscoGroupCode = [], code = [],
     preferredLabel = ''Unclassified worker'', exampleAlternateDesignation = [], coreDescription = [],
     iscoTaxIncluded = [], definition_text = [], scopeNote = [], regulatedProfessionNote = [],
     occupationType = [], status = []\<rparr>"

definition both_facets :: search_filters where
  "both_facets = \<lparr>iscoMajorGroups = [''2''], occupationTypes = [''Occupation'']\<rparr>"

definition long_code :: occupation where
  "long_code = \<lparr>userLink = [], keyId = ''4'', iscoGroupCode = ''2512'', code = ''25123'',
     preferredLabel = ''Web developer'', exampleAlternateDesignation = [], coreDescription = [],
     iscoTaxIncluded = [], definition_text = [], scopeNote = [], regulatedProfessionNote = [],
     occupationType = ''Occupation'', status = []\<rparr>"

definition dot_first :: occupation where
  "dot_first = \<lparr>userLink = [], keyId = ''5'', iscoGroupCode = [], code = ''.5'',
     preferredLabel = ''Helper'', exampleAlternateDesignation = [], coreDescription = [],
     iscoTaxIncluded = [], definition_text = [], scopeNote = [], regulatedProfessionNote = [],
     occupationType = ''Occupation'', status = []\<rparr>"

text \<open>
  A collation that compares without regard to case. Like the collation of the host, it
  puts \<open>a\<close> before \<open>B\<close>, which the comparison of code units does not.
\<close>

definition caseless_compare :: "string \<Rightarrow> string \<Rightarrow> int" where
  "caseless_compare a b = lex_compare (toLowerCase a) (toLowerCase b)"

definition lower_a :: occupation where
  "lower_a = \<lparr>userLink = [], keyId = ''6'', iscoGroupCode = [], code = ''a'',
     preferredLabel = ''Apprentice'', exampleAlternateDesignation = [], coreDescription = [],
     iscoTaxIncluded = [], definition_text = [], scopeNote = [], regulatedProfessionNote = [],
     occupationType = ''Occupation'', status = []\<rparr>"

definition upper_B :: occupation where
  "upper_B = \<lparr>userLink = [], keyId = ''7'', iscoGroupCode = [], code = ''B'',
     preferredLabel = ''Baker'', exampleAlternateDesignation = [], coreDescription = [],
     iscoTaxIncluded = [], definition_text = [], scopeNote = [], regulatedProfessionNote = [],
     occupationType = ''Occupation'', status = []\<rparr>"

definition upper_A :: occupation where
  "upper_A = \<lparr>userLink = [], keyId = ''8'', iscoGroupCode = [], code = ''A'',
     preferredLabel = ''Actor'', exampleAlternateDesignation = [], coreDescription = [],
     iscoTaxIncluded = [], definition_text = [], scopeNote = [], regulatedProfessionNote = [],
     occupationType = ''Occupation'', status = []\<rparr>"

definition developer_twin :: occupation where
  "developer_twin = developer\<lparr>keyId := ''9''\<rparr>"

definition blank_type :: search_filters where
  "blank_type = \<lparr>iscoMajorGroups = [], occupationTypes = [[]]\<rparr>"

definition fuse_all :: "occupation list \<Rightarrow> string \<Rightarrow> int \<Rightarrow> fuse_result list" where
  \<comment> \<open>An index that returns every record, each with the best score.\<close>
  "fuse_all occs query limit =
     map (\<lambda>occ. \<lparr>item = occ, fuse_score = Some 0, fuse_matches = None\<rparr>) occs"

definition example_engine :: engine where
  "example_engine = EnhancedSearchEngine fuse_all [unclassified, analyst, developer]"

section \<open>The word-boundary pattern is built from the raw query\<close>

lemma RegExp_cpp: "RegExp ([backslash, CHR ''b''] @ ''c++'') ''i'' = Inl SyntaxError"
  by (simp add: RegExp_def backslash_def escape_token_def char_token_def)

lemma RegExp_paren: "RegExp ([backslash, CHR ''b''] @ ''('') ''i'' = Inl SyntaxError"
  by (simp add: RegExp_def backslash_def escape_token_def char_token_def)

lemma boost_one_cpp: "boost_one ''c++'' r = Inl SyntaxError"
  using RegExp_cpp by (simp add: boost_one_def Let_def)

lemma boost_one_paren: "boost_one ''('' r = Inl SyntaxError"
  using RegExp_paren by (simp add: boost_one_def Let_def)

lemma toLowerCase_cpp:
  "toLowerCase ''c++'' = ''c++''" "toLowerCase ''C++'' = ''c++''" "toLowerCase ''('' = ''(''"
  by code_simp+

lemma trim_cpp: "trim ''c++'' \<noteq> []" "trim ''('' \<noteq> []"
  by (simp_all add: trim_def is_white_space_def)

text \<open>
  C1: no operation of the core raises; in particular \<open>search\<close> returns normally for every
  query, also one with regular-expression metacharacters such as \<open>(\<close> or \<open>c++\<close>.
  The code does not do that: for the queries \<open>c++\<close> and \<open>(\<close>, as soon as the index returns
  one candidate, \<open>boostRelevance\<close> builds the pattern \<open>\bc++\<close> or \<open>\b(\<close> and the constructor
  of the regular expression throws a SyntaxError, which \<open>search\<close> does not catch.
\<close>

theorem search_throws_on_metacharacters:
  assumes "query = ''c++'' \<or> query = ''(''" and "fuse this query (limit * 2) \<noteq> []"
  shows "search this query None limit = Inl SyntaxError"
proof -
  obtain r rs where rs: "fuse this query (limit * 2) = r # rs"
    using assms(2) by (cases "fuse this query (limit * 2)") auto
  have "boost_one (toLowerCase query) x = Inl SyntaxError" for x
    using assms(1) by (auto simp: toLowerCase_cpp boost_one_cpp boost_one_paren)
  then have "boostRelevance (map from_fuse_result (r # rs)) query = Inl SyntaxError"
    by (simp add: boostRelevance_def)
  moreover have "trim query \<noteq> []"
    using assms(1) trim_cpp by auto
  ultimately show ?thesis
    by (simp add: search_def rs Let_def)
qed

theorem search_throws_on_metacharacters_witness:
  "(''c++'' = ''c++'' \<or> ''c++'' = ''('') \<and>
   fuse (EnhancedSearchEngine fuse_all [developer]) ''c++'' (100 * 2) \<noteq> [] \<and>
   search (EnhancedSearchEngine fuse_all [developer]) ''c++'' None 100 = Inl SyntaxError"
  using search_throws_on_metacharacters [of "''c++''" "EnhancedSearchEngine fuse_all [developer]" 100]
  by (simp add: EnhancedSearchEngine_def fuse_all_def)

text \<open>
  C5: for every non-empty query the ranker multiplies the score by 1.3, 1.2 and 1.1 under
  the three conditions. The code does not do that for a query with regular-expression
  metacharacters: on \<open>C++\<close> the ranker throws a SyntaxError for any non-empty list of
  candidates, and no score is computed.
\<close>

theorem boostRelevance_throws_on_metacharacters:
  "boostRelevance (r # rs) ''C++'' = Inl SyntaxError"
  by (simp add: boostRelevance_def toLowerCase_cpp boost_one_cpp)

section \<open>Breadcrumbs\<close>

text \<open>
  C4: the breadcrumb of a record with code \<open>2512\<close> ends in
  \<open>251 - Software and applications developers and analysts\<close>. The code does not do that:
  the table of minor groups of the search engine has no entry for \<open>251\<close> (the table of
  the taxonomy builder has one), so the last part is \<open>251 - Group 251\<close>.
\<close>

theorem breadcrumb_2512:
  "code occ = ''2512'' \<Longrightarrow> generateBreadcrumb occ =
     ''2 - Professionals > 25 - Information and communications technology professionals > 251 - Group 251''"
  by (simp add: generateBreadcrumb_def Let_def char_at_def push_def substring_def
      engine_getMajorGroupName_def engine_getSubMajorGroupName_def engine_getMinorGroupName_def
      lookup_name_def engineMajorGroupNames_def engineSubMajorGroupNames_def engineMinorGroupNames_def)

theorem breadcrumb_2512_witness:
  "code developer = ''2512'' \<and> generateBreadcrumb developer =
     ''2 - Professionals > 25 - Information and communications technology professionals > 251 - Group 251''"
  using breadcrumb_2512 [of developer] by (simp add: developer_def)

lemma taxonomy_name_251:
  "getMinorGroupName ''251'' = ''Software and applications developers and analysts''"
  by (simp add: getMinorGroupName_def lookup_name_def minorGroupNames_def)


section \<open>Filters and the empty query\<close>

lemma dropWhile_all_iff: "(\<forall>x\<in>set (dropWhile P xs). P x) \<longleftrightarrow> (\<forall>x\<in>set xs. P x)"
  by (induction xs) auto

lemma trim_empty_iff: "trim query = [] \<longleftrightarrow> (\<forall>c\<in>set query. is_white_space c)"
  by (simp add: trim_def dropWhile_eq_Nil_conv dropWhile_all_iff)

lemma to_result_simps:
  "code (to_result occ s ms b) = code occ"
  "occupationType (to_result occ s ms b) = occupationType occ"
  "score (to_result occ s ms b) = s"
  "matches (to_result occ s ms b) = ms"
  "breadcrumb (to_result occ s ms b) = b"
  by (simp_all add: to_result_def occupation.defs search_result.defs)

lemma matchesFilters_cong:
  "code a = code b \<Longrightarrow> occupationType a = occupationType b \<Longrightarrow> matchesFilters a f = matchesFilters b f"
  by (simp add: matchesFilters_def)

lemma matchesFilters_to_result: "matchesFilters (to_result occ s ms b) f = matchesFilters occ f"
  by (rule matchesFilters_cong) (simp_all add: to_result_simps)

lemma set_array_slice0: "set (array_slice0 xs n) \<subseteq> set xs"
  by (simp add: array_slice0_def set_take_subset)

lemma map_failing_Inr:
  "map_failing f xs = Inr ys \<Longrightarrow> y \<in> set ys \<Longrightarrow> \<exists>x\<in>set xs. f x = Inr y"
  by (induction xs arbitrary: ys) (auto split: sum.splits)

lemma boost_one_Inr:
  "boost_one q x = Inr y \<Longrightarrow> code y = code x \<and> occupationType y = occupationType x"
  by (auto simp: boost_one_def Let_def split: sum.splits)

lemma boostRelevance_Inr:
  assumes "boostRelevance xs q = Inr ys" "y \<in> set ys"
  shows "\<exists>x\<in>set xs. code y = code x \<and> occupationType y = occupationType x"
proof -
  from assms obtain zs where zs: "map_failing (boost_one (toLowerCase q)) xs = Inr zs" "y \<in> set zs"
    by (auto simp: boostRelevance_def Let_def set_array_sort split: sum.splits)
  then show ?thesis
    using map_failing_Inr [OF zs] boost_one_Inr by blast
qed

lemma search_results_match_filters:
  assumes "search this query (Some f) limit = Inr results" "r \<in> set results"
  shows "matchesFilters r f"
proof (cases "trim query = []")
  case True
  with assms have "r \<in> set (getFilteredOccupations this (Some f))"
    using set_array_slice0 by (fastforce simp: search_def)
  then show ?thesis
    by (auto simp: getFilteredOccupations_def Let_def matchesFilters_to_result)
next
  case False
  let ?cands = "applyFilters (map from_fuse_result (fuse this query (limit * 2))) f"
  from False assms obtain boosted where b: "boostRelevance ?cands query = Inr boosted" "r \<in> set boosted"
    using set_array_slice0 by (fastforce simp: search_def Let_def split: sum.splits)
  from boostRelevance_Inr [OF b] obtain x where "x \<in> set ?cands" "code r = code x" "occupationType r = occupationType x"
    by blast
  then show ?thesis
    using matchesFilters_cong [of r x f] by (auto simp: applyFilters_def)
qed

text \<open>
  C9: a record with an empty code fails the filter whenever \<open>iscoMajorGroups\<close> is
  non-empty, and a record with an empty occupation type fails it whenever
  \<open>occupationTypes\<close> is non-empty; so no result of a filtered search, with or without
  query text, is such a record while the facet is active.
\<close>

theorem empty_fields_fail_active_facets:
  "(code occ = [] \<and> iscoMajorGroups f \<noteq> [] \<longrightarrow> \<not> matchesFilters occ f) \<and>
   (occupationType occ = [] \<and> occupationTypes f \<noteq> [] \<longrightarrow> \<not> matchesFilters occ f) \<and>
   (search this query (Some f) limit = Inr results \<and> r \<in> set results \<longrightarrow>
      \<not> (code r = [] \<and> iscoMajorGroups f \<noteq> []) \<and>
      \<not> (occupationType r = [] \<and> occupationTypes f \<noteq> []))"
proof (intro conjI impI)
  assume "code occ = [] \<and> iscoMajorGroups f \<noteq> []"
  then show "\<not> matchesFilters occ f"
    by (simp add: matchesFilters_def char_at_def)
next
  assume "occupationType occ = [] \<and> occupationTypes f \<noteq> []"
  then show "\<not> matchesFilters occ f"
    by (simp add: matchesFilters_def)
next
  assume a: "search this query (Some f) limit = Inr results \<and> r \<in> set results"
  then have m: "matchesFilters r f"
    using search_results_match_filters by blast
  from m show "\<not> (code r = [] \<and> iscoMajorGroups f \<noteq> [])"
    by (auto simp: matchesFilters_def char_at_def split: if_splits)
  from m show "\<not> (occupationType r = [] \<and> occupationTypes f \<noteq> [])"
    by (auto simp: matchesFilters_def split: if_splits)
qed

lemma truncate_to_result: "occupation.truncate (to_result occ s ms b) = occ"
  by (simp add: to_result_def occupation.defs search_result.defs)

lemma matchesFilters_explicit:
  "matchesFilters occ f \<longleftrightarrow>
     (iscoMajorGroups f = [] \<or> (code occ \<noteq> [] \<and> take 1 (code occ) \<in> set (iscoMajorGroups f))) \<and>
     (occupationTypes f = [] \<or>
        (occupationType occ \<noteq> [] \<and> occupationType occ \<in> set (occupationTypes f)))"
  by (cases "code occ") (auto simp: matchesFilters_def char_at_def)

text \<open>
  C6, as the code has it: for a query that is empty or all white space, \<open>search\<close> returns
  the records of the corpus, in their order, that pass the filters, each with score 1 and
  no matches, cut to the first \<open>limit\<close> results. A record passes a non-empty
  \<open>iscoMajorGroups\<close> when its code is not empty and its first character is one of the
  groups, and a non-empty \<open>occupationTypes\<close> when its occupation type is not empty and is
  one of the types. The limit is a count (an unsigned integer in the interface of the
  specification); a negative number would make \<open>slice\<close> count from the end.
\<close>

theorem empty_query_browse:
  assumes "\<forall>c\<in>set query. is_white_space c" and "0 \<le> limit"
  shows "\<exists>results. search this query filters limit = Inr results \<and>
     map occupation.truncate results =
       take (nat limit)
         (filter
           (\<lambda>occ. case filters of
                     None \<Rightarrow> True
                   | Some f \<Rightarrow>
                       (iscoMajorGroups f = [] \<or>
                          (code occ \<noteq> [] \<and> take 1 (code occ) \<in> set (iscoMajorGroups f))) \<and>
                       (occupationTypes f = [] \<or>
                          (occupationType occ \<noteq> [] \<and>
                           occupationType occ \<in> set (occupationTypes f))))
           (occupations this)) \<and>
     length results \<le> nat limit \<and>
     (\<forall>r\<in>set results. score r = 1 \<and> matches r = [])"
proof -
  let ?keep = "\<lambda>occ. case filters of
                     None \<Rightarrow> True
                   | Some f \<Rightarrow>
                       (iscoMajorGroups f = [] \<or>
                          (code occ \<noteq> [] \<and> take 1 (code occ) \<in> set (iscoMajorGroups f))) \<and>
                       (occupationTypes f = [] \<or>
                          (occupationType occ \<noteq> [] \<and>
                           occupationType occ \<in> set (occupationTypes f)))"
  let ?wrap = "\<lambda>occ. to_result occ 1 [] (generateBreadcrumb occ)"
  have "trim query = []"
    using assms(1) by (simp add: trim_empty_iff)
  then have s: "search this query filters limit =
      Inr (take (nat limit) (getFilteredOccupations this filters))"
    using assms(2) by (simp add: search_def array_slice0_def)
  have g: "getFilteredOccupations this filters = map ?wrap (filter ?keep (occupations this))"
    by (cases filters) (simp_all add: getFilteredOccupations_def matchesFilters_explicit)
  have "map occupation.truncate (take (nat limit) (map ?wrap (filter ?keep (occupations this)))) =
        take (nat limit) (filter ?keep (occupations this))"
    by (simp add: take_map truncate_to_result comp_def)
  moreover have "\<forall>r\<in>set (take (nat limit) (map ?wrap (filter ?keep (occupations this)))).
      score r = 1 \<and> matches r = []"
    by (auto simp: to_result_simps dest!: in_set_takeD)
  ultimately show ?thesis
    unfolding s g by simp
qed

text \<open>
  C6 as stated fails: with the facet \<open>occupationTypes = ['']\<close>, the record with the empty
  occupation type has one of the values of the facet, and the empty query does not return it.
\<close>

theorem empty_query_browse_counterexample:
  "unclassified \<in> set (occupations (EnhancedSearchEngine fuse_all [unclassified])) \<and>
   satisfies_filters unclassified blank_type \<and>
   search (EnhancedSearchEngine fuse_all [unclassified]) [] (Some blank_type) 10 = Inr []"
  by (simp add: satisfies_filters_def blank_type_def unclassified_def EnhancedSearchEngine_def
      search_def trim_def getFilteredOccupations_def matchesFilters_def array_slice0_def)

lemma analyst_breadcrumb: "generateBreadcrumb analyst = ''2 - Professionals > 25 - Information and communications technology professionals > 251 - Group 251''"
  by (simp add: generateBreadcrumb_def Let_def char_at_def push_def substring_def analyst_def
      engine_getMajorGroupName_def engine_getSubMajorGroupName_def engine_getMinorGroupName_def
      lookup_name_def engineMajorGroupNames_def engineSubMajorGroupNames_def engineMinorGroupNames_def)

lemma example_filtering:
  "\<not> matchesFilters unclassified both_facets" "matchesFilters analyst both_facets" "\<not> matchesFilters developer both_facets"
  by (simp_all add: matchesFilters_def unclassified_def analyst_def developer_def both_facets_def char_at_def)

lemma example_browse: "search example_engine '' '' (Some both_facets) 1 = Inr [to_result analyst 1 [] (generateBreadcrumb analyst)]"
  by (simp add: search_def trim_def is_white_space_def array_slice0_def getFilteredOccupations_def
       example_engine_def EnhancedSearchEngine_def example_filtering)

theorem empty_fields_fail_active_facets_witness:
  "code unclassified = [] \<and> iscoMajorGroups both_facets \<noteq> [] \<and>
   occupationType unclassified = [] \<and> occupationTypes both_facets \<noteq> [] \<and>
   \<not> matchesFilters unclassified both_facets \<and>
   search example_engine '' '' (Some both_facets) 1 = Inr [to_result analyst 1 [] (generateBreadcrumb analyst)] \<and>
   to_result analyst 1 [] (generateBreadcrumb analyst) \<in> set [to_result analyst 1 [] (generateBreadcrumb analyst)] \<and>
   code (to_result analyst 1 [] (generateBreadcrumb analyst)) \<noteq> []"
  using empty_fields_fail_active_facets [of unclassified both_facets example_engine "'' ''" 1
      "[to_result analyst 1 [] (generateBreadcrumb analyst)]" "to_result analyst 1 [] (generateBreadcrumb analyst)"]
    example_browse
  by (simp add: unclassified_def both_facets_def)

theorem empty_query_browse_witness:
  "is_white_space CHR '' '' \<and> (0::int) \<le> 1 \<and>
   search example_engine '' '' (Some both_facets) 1 =
     Inr [to_result analyst 1 [] (generateBreadcrumb analyst)] \<and>
   map occupation.truncate [to_result analyst 1 [] (generateBreadcrumb analyst)] = [analyst]"
  using empty_query_browse [of "'' ''" 1 example_engine "Some both_facets"]
  by (simp add: is_white_space_def example_browse truncate_to_result)

section \<open>The taxonomy builder\<close>

lemma addOccupation_path:
  "addOccupation occ groups =
     (if main_code occ = [] then groups else insert_at (path_of (main_code occ)) (Occ occ) groups)"
proof (cases "main_code occ = []")
  case True
  then show ?thesis
    by (simp add: addOccupation_def main_code_def Let_def)
next
  case False
  then have c: "code occ \<noteq> []"
    by (auto simp: main_code_def split_first_def)
  obtain a m' where m: "main_code occ = a # m'"
    using False by (cases "main_code occ") auto
  show ?thesis
    using c m unfolding main_code_def
    by (simp add: addOccupation_def Let_def substring_def path_of_def min_def)
qed

lemma organizeOccupations_build:
  "organizeOccupations cmp occs = map (sortChildren cmp) (array_sort (by_code cmp) (build occs))"
  by (simp add: organizeOccupations_def build_def)

lemma attached_Cons_iff:
  "attached occ (c # p) nodes \<longleftrightarrow> (\<exists>name cs. Group c name cs \<in> set nodes \<and> attached occ p cs)"
proof
  assume "attached occ (c # p) nodes"
  then obtain g where g: "g \<in> set nodes"
      "case g of Group c' name cs \<Rightarrow> c' = c \<and> attached occ p cs | Occ _ \<Rightarrow> False"
    by auto
  show "\<exists>name cs. Group c name cs \<in> set nodes \<and> attached occ p cs"
  proof (cases g)
    case (Group c' name cs)
    with g show ?thesis by auto
  next
    case (Occ x)
    with g show ?thesis by simp
  qed
next
  assume "\<exists>name cs. Group c name cs \<in> set nodes \<and> attached occ p cs"
  then obtain name cs where "Group c name cs \<in> set nodes" "attached occ p cs"
    by blast
  then show "attached occ (c # p) nodes"
    by (auto intro!: bexI [where x = "Group c name cs"])
qed

declare attached.simps(2) [simp del]

lemma attached_push: "attached occ p xs \<Longrightarrow> attached occ p (push x xs)"
  by (cases p) (auto simp: push_def attached_Cons_iff)

lemma attached_with_group_mono:
  assumes mono: "\<And>ys q. attached occ q ys \<Longrightarrow> attached occ q (k ys)"
  shows "attached occ p xs \<Longrightarrow> attached occ p (with_group c name k xs)"
proof (induction xs)
  case Nil
  then show ?case by (cases p) (auto simp: attached_Cons_iff)
next
  case (Cons x xs)
  show ?case
  proof (cases p)
    case Nil
    with Cons show ?thesis by (cases x) auto
  next
    case p: (Cons d q)
    from Cons.prems obtain n ds where n: "Group d n ds \<in> set (x # xs)" "attached occ q ds"
      unfolding p attached_Cons_iff by blast
    show ?thesis
    proof (cases "Group d n ds = x")
      case True
      then have "attached occ q (k ds)"
        using n(2) mono by auto
      then show ?thesis
        using True [symmetric] n(2) unfolding p attached_Cons_iff by auto
    next
      case False
      then have old: "attached occ p xs"
        using n unfolding p attached_Cons_iff by auto
      then have new: "attached occ p (with_group c name k xs)"
        by (rule Cons.IH)
      show ?thesis
      proof (cases x)
        case (Group c' name' cs)
        show ?thesis
        proof (cases "c' = c")
          case True
          with old Group show ?thesis
            unfolding p attached_Cons_iff by auto
        next
          case False
          with new Group show ?thesis
            unfolding p attached_Cons_iff by auto
        qed
      next
        case (Occ occ')
        with new show ?thesis
          unfolding p attached_Cons_iff by auto
      qed
    qed
  qed
qed

lemma attached_insert_at_mono: "attached occ p xs \<Longrightarrow> attached occ p (insert_at q x xs)"
proof (induction q arbitrary: p xs)
  case Nil
  then show ?case by (simp add: attached_push)
next
  case (Cons a q)
  obtain c name where a: "a = (c, name)" by (cases a)
  show ?case
    unfolding a insert_at.simps
    by (rule attached_with_group_mono) (use Cons in auto)
qed

lemma with_group_has:
  "\<exists>name' cs. Group c name' (k cs) \<in> set (with_group c name k xs)"
  by (induction c name k xs rule: with_group.induct) auto

lemma attached_insert_at_new: "attached occ (map fst q) (insert_at q (Occ occ) xs)"
proof (induction q arbitrary: xs)
  case Nil
  then show ?case by (simp add: push_def)
next
  case (Cons a q)
  obtain c name where a: "a = (c, name)" by (cases a)
  obtain name' cs where "Group c name' (insert_at q (Occ occ) cs) \<in> set (with_group c name (insert_at q (Occ occ)) xs)"
    using with_group_has by blast
  with Cons show ?case
    unfolding a by (auto simp: attached_Cons_iff)
qed

lemma attached_addOccupation_mono: "attached occ p xs \<Longrightarrow> attached occ p (addOccupation occ' xs)"
  by (simp add: addOccupation_path attached_insert_at_mono)

lemma attached_foldl_mono:
  "attached occ p xs \<Longrightarrow> attached occ p (foldl (\<lambda>g occupation. addOccupation occupation g) xs occs)"
  by (induction occs arbitrary: xs) (auto simp: attached_addOccupation_mono)

lemma attached_build:
  assumes "occ \<in> set occs" and "main_code occ \<noteq> []"
  shows "attached occ (map fst (path_of (main_code occ))) (build occs)"
proof -
  have "attached occ (map fst (path_of (main_code occ)))
          (foldl (\<lambda>g occupation. addOccupation occupation g) xs occs)" for xs
    using assms(1)
  proof (induction occs arbitrary: xs)
    case Nil
    then show ?case by simp
  next
    case (Cons a occs)
    show ?case
    proof (cases "a = occ")
      case True
      have "attached occ (map fst (path_of (main_code occ))) (addOccupation occ xs)"
        using assms(2) by (simp add: addOccupation_path attached_insert_at_new)
      then show ?thesis
        using True by (simp add: attached_foldl_mono)
    next
      case False
      with Cons show ?thesis by simp
    qed
  qed
  then show ?thesis by (simp add: build_def)
qed

lemma attached_sorted:
  fixes f :: "node \<Rightarrow> node \<Rightarrow> int"
  shows "attached occ p xs \<Longrightarrow> attached occ p (map (sortChildren cmp) (array_sort f xs))"
proof (induction p arbitrary: xs f)
  case Nil
  then have "sortChildren cmp (Occ occ) \<in> sortChildren cmp ` set xs"
    by (intro imageI) simp
  then show ?case by (simp add: set_array_sort)
next
  case (Cons c p)
  then obtain name cs where g: "Group c name cs \<in> set xs" "attached occ p cs"
    unfolding attached_Cons_iff by blast
  let ?cs = "map (sortChildren cmp) (array_sort (by_code cmp) cs)"
  have "sortChildren cmp (Group c name cs) \<in> sortChildren cmp ` set xs"
    using g(1) by (rule imageI)
  then have "Group c name ?cs \<in> set (map (sortChildren cmp) (array_sort f xs))"
    by (simp add: set_array_sort)
  moreover have "attached occ p ?cs"
    using g(2) by (rule Cons.IH)
  ultimately show ?case
    unfolding attached_Cons_iff by blast
qed

lemma placement_attached:
  assumes "occ \<in> set occs" and "m = split_first CHR ''.'' (code occ)" and "m \<noteq> []"
  shows "attached occ
           (if length m = 4 then [take 1 m, take 2 m, take 3 m, m]
            else if 3 \<le> length m then [take 1 m, take 2 m, take 3 m]
            else if length m = 2 then [take 1 m, m]
            else [m])
           (organizeOccupations localeCompare occs)"
proof -
  have m: "m = main_code occ"
    by (simp add: assms(2) main_code_def)
  have "map fst (path_of m) =
          (if length m = 4 then [take 1 m, take 2 m, take 3 m, m]
            else if 3 \<le> length m then [take 1 m, take 2 m, take 3 m]
            else if length m = 2 then [take 1 m, m]
            else [m])"
    using assms(3) by (auto simp: path_of_def take_all)
  moreover have "attached occ (map fst (path_of m)) (build occs)"
    using attached_build [of occ occs] assms(1,3) unfolding m by simp
  then have "attached occ (map fst (path_of m)) (organizeOccupations localeCompare occs)"
    unfolding organizeOccupations_build by (rule attached_sorted)
  ultimately show ?thesis by simp
qed

lemma all_records_simps [simp]:
  "all_records [] = {}"
  "all_records (x # xs) = set (records_of x) \<union> all_records xs"
  "all_records (xs @ ys) = all_records xs \<union> all_records ys"
  "set (records_of (Group c name cs)) = all_records cs"
  by (auto simp: all_records_def)

lemma pref_ok_Group: "pref_ok (Group c name cs) \<longleftrightarrow> (\<forall>r\<in>all_records cs. prefix c (code r)) \<and> (\<forall>x\<in>set cs. pref_ok x)"
  by (auto simp: all_records_def)

declare pref_ok.simps(2) [simp del]
declare records_of.simps(2) [simp del]

lemma pref_ok_groups_of:
  "pref_ok x \<longleftrightarrow> (\<forall>g\<in>set (groups_of x). \<forall>r\<in>set (records_of g). prefix (group_code g) (code r))"
  by (induction x) (auto simp: pref_ok_Group)

lemma all_records_with_group:
  assumes "\<And>ys. all_records (k ys) = insert occ (all_records ys)"
  shows "all_records (with_group c name k xs) = insert occ (all_records xs)"
proof (induction xs)
  case Nil
  show ?case by (simp add: assms)
next
  case (Cons x xs)
  then show ?case by (cases x) (auto simp: assms)
qed

lemma all_records_insert_at:
  "all_records (insert_at p (Occ occ) xs) = insert occ (all_records xs)"
proof (induction p arbitrary: xs)
  case Nil
  show ?case by (simp add: push_def)
next
  case (Cons a p)
  obtain c name where a: "a = (c, name)" by (cases a)
  show ?case unfolding a insert_at.simps
    by (rule all_records_with_group) (rule Cons.IH)
qed

lemma pref_ok_with_group:
  assumes "prefix c (code occ)"
    and "\<And>ys. all_records (k ys) = insert occ (all_records ys)"
    and "\<And>ys. \<forall>x\<in>set ys. pref_ok x \<Longrightarrow> \<forall>x\<in>set (k ys). pref_ok x"
  shows "\<forall>x\<in>set xs. pref_ok x \<Longrightarrow> \<forall>x\<in>set (with_group c name k xs). pref_ok x"
proof (induction xs)
  case Nil
  have "\<forall>x\<in>set (k []). pref_ok x"
    using assms(3) [of "[]"] by simp
  then show ?case
    using assms(1,2) by (simp add: pref_ok_Group)
next
  case (Cons x xs)
  show ?case
  proof (cases x)
    case (Group c' name' cs)
    show ?thesis
    proof (cases "c' = c")
      case True
      have old: "pref_ok (Group c' name' cs)"
        using Cons.prems Group by simp
      then have "\<forall>x\<in>set (k cs). pref_ok x"
        by (intro assms(3)) (simp add: pref_ok_Group)
      with old have "pref_ok (Group c' name' (k cs))"
        using assms(1,2) True by (simp add: pref_ok_Group)
      then show ?thesis
        using Cons.prems Group True by simp
    next
      case False
      then show ?thesis
        using Cons Group by simp
    qed
  next
    case (Occ occ')
    then show ?thesis
      using Cons by simp
  qed
qed

lemma pref_ok_insert_at:
  assumes "\<forall>(c, name)\<in>set p. prefix c (code occ)"
  shows "\<forall>x\<in>set xs. pref_ok x \<Longrightarrow> \<forall>x\<in>set (insert_at p (Occ occ) xs). pref_ok x"
  using assms
proof (induction p arbitrary: xs)
  case Nil
  then show ?case by (simp add: push_def)
next
  case (Cons a p)
  obtain c name where a: "a = (c, name)" by (cases a)
  show ?case unfolding a insert_at.simps
  proof (rule pref_ok_with_group)
    show "prefix c (code occ)"
      using Cons.prems(2) a by simp
    show "all_records (insert_at p (Occ occ) ys) = insert occ (all_records ys)" for ys
      by (rule all_records_insert_at)
    show "\<forall>x\<in>set ys. pref_ok x \<Longrightarrow> \<forall>x\<in>set (insert_at p (Occ occ) ys). pref_ok x" for ys
      using Cons.IH [of ys] Cons.prems(2) by simp
    show "\<forall>x\<in>set xs. pref_ok x"
      by (rule Cons.prems(1))
  qed
qed

lemma main_code_prefix: "prefix (main_code occ) (code occ)"
  unfolding main_code_def split_first_def
  by (metis prefixI takeWhile_dropWhile_id)

lemma path_of_prefix: "\<forall>(c, name)\<in>set (path_of m). prefix c m"
  by (auto simp: path_of_def take_is_prefix)

lemma pref_ok_addOccupation:
  assumes "\<forall>x\<in>set xs. pref_ok x"
  shows "\<forall>x\<in>set (addOccupation occ xs). pref_ok x"
proof (cases "main_code occ = []")
  case True
  then show ?thesis using assms by (simp add: addOccupation_path)
next
  case False
  have "\<forall>(c, name)\<in>set (path_of (main_code occ)). prefix c (code occ)"
    using path_of_prefix [of "main_code occ"] main_code_prefix [of occ]
    by (auto intro: prefix_order.trans)
  then show ?thesis
    using False assms by (simp add: addOccupation_path pref_ok_insert_at)
qed

lemma pref_ok_build: "\<forall>x\<in>set (build occs). pref_ok x"
proof -
  have "\<forall>x\<in>set xs. pref_ok x \<Longrightarrow>
      \<forall>x\<in>set (foldl (\<lambda>g occupation. addOccupation occupation g) xs occs). pref_ok x" for xs
  proof (induction occs arbitrary: xs)
    case Nil
    then show ?case by simp
  next
    case (Cons a occs)
    then show ?case
      using pref_ok_addOccupation [of xs a] by simp
  qed
  from this [of "[]"] show ?thesis by (simp add: build_def)
qed

lemma node_code_sortChildren [simp]: "node_code (sortChildren cmp x) = node_code x"
  by (cases x) simp_all

lemma records_of_sortChildren: "set (records_of (sortChildren cmp x)) = set (records_of x)"
proof (induction cmp x rule: sortChildren.induct)
  case (1 cmp c name cs)
  then show ?case
    by (auto simp: all_records_def set_array_sort)
next
  case (2 cmp occ)
  show ?case by simp
qed

lemma pref_ok_sortChildren: "pref_ok x \<Longrightarrow> pref_ok (sortChildren cmp x)"
proof (induction cmp x rule: sortChildren.induct)
  case (1 cmp c name cs)
  have "all_records (map (sortChildren cmp) (array_sort (by_code cmp) cs)) = all_records cs"
    by (auto simp: all_records_def set_array_sort records_of_sortChildren)
  with 1 show ?case
    by (auto simp: pref_ok_Group set_array_sort)
next
  case (2 cmp occ)
  show ?case by simp
qed

text \<open>
  C3, as the code has it: in every tree that \<open>organizeOccupations\<close> returns, the code of
  a group is a prefix of the code of every record below the group. The prefix need not be
  strict.
\<close>

theorem group_code_is_prefix:
  "\<forall>root\<in>set (organizeOccupations localeCompare occs).
     \<forall>g\<in>set (groups_of root). \<forall>r\<in>set (records_of g). prefix (group_code g) (code r)"
proof -
  have "\<forall>x\<in>set (organizeOccupations localeCompare occs). pref_ok x"
    using pref_ok_build [of occs]
    by (auto simp: organizeOccupations_build set_array_sort pref_ok_sortChildren)
  then show ?thesis
    by (simp add: pref_ok_groups_of)
qed

lemma example_codes:
  "code developer = ''2512''" "code analyst = ''2511''" "code long_code = ''25123''"
  "code dot_first = ''.5''" "code unclassified = []"
  by (simp_all add: developer_def analyst_def long_code_def dot_first_def unclassified_def)

lemma example_names:
  "getMajorGroupName ''2'' = ''Professionals''"
  "getSubMajorGroupName ''25'' = ''Information and communications technology professionals''"
  "getMinorGroupName ''251'' = ''Software and applications developers and analysts''"
  "getUnitGroupName ''2511'' = ''Group 2511''"
  "getUnitGroupName ''2512'' = ''Group 2512''"
  by (simp_all add: getMajorGroupName_def getSubMajorGroupName_def getMinorGroupName_def
      getUnitGroupName_def lookup_name_def majorGroupNames_def subMajorGroupNames_def
      minorGroupNames_def unitGroupNames_def)

lemma tree_developer:
  "organizeOccupations lex_compare [developer] =
     [Group ''2'' ''Professionals''
       [Group ''25'' ''Information and communications technology professionals''
         [Group ''251'' ''Software and applications developers and analysts''
           [Group ''2512'' ''Group 2512'' [Occ developer]]]]]"
  by (simp add: organizeOccupations_def addOccupation_path main_code_def split_first_def
      example_codes path_of_def example_names push_def array_sort_def)

lemma tree_long_code:
  "organizeOccupations lex_compare [long_code] =
     [Group ''2'' ''Professionals''
       [Group ''25'' ''Information and communications technology professionals''
         [Group ''251'' ''Software and applications developers and analysts''
           [Occ long_code]]]]"
  by (simp add: organizeOccupations_def addOccupation_path main_code_def split_first_def
      example_codes path_of_def example_names push_def array_sort_def)

lemma tree_dot_first: "organizeOccupations lex_compare [dot_first] = []"
  by (simp add: organizeOccupations_def addOccupation_path main_code_def split_first_def
      example_codes array_sort_def)

lemma tree_analyst_developer:
  "organizeOccupations lex_compare [developer, analyst] =
     [Group ''2'' ''Professionals''
       [Group ''25'' ''Information and communications technology professionals''
         [Group ''251'' ''Software and applications developers and analysts''
           [Group ''2511'' ''Group 2511'' [Occ analyst],
            Group ''2512'' ''Group 2512'' [Occ developer]]]]]"
  by (simp add: organizeOccupations_def addOccupation_path main_code_def split_first_def
      example_codes path_of_def example_names push_def array_sort_def by_code_def lex_compare_def)

lemma mset_insert_cmp: "mset (insert_cmp f x xs) = add_mset x (mset xs)"
  by (induction xs) auto

lemma mset_array_sort: "mset (array_sort f xs) = mset xs"
  by (induction xs) (simp_all add: array_sort_def mset_insert_cmp)

lemma mset_concat_map:
  "mset (concat (map g xs)) = (\<Sum>x\<in>#mset xs. mset (g x))"
  by (induction xs) simp_all

lemma mset_concat_map_cong:
  assumes "mset xs = mset ys" and "\<And>x. x \<in> set xs \<Longrightarrow> mset (g x) = mset (h x)"
  shows "mset (concat (map g xs)) = mset (concat (map h ys))"
proof -
  have "(\<Sum>x\<in>#mset xs. mset (g x)) = (\<Sum>x\<in>#mset xs. mset (h x))"
    using assms(2) by (intro arg_cong [where f = sum_mset] image_mset_cong) simp
  then show ?thesis
    by (simp add: mset_concat_map assms(1))
qed

lemma mset_records_sortChildren: "mset (records_of (sortChildren cmp x)) = mset (records_of x)"
proof (induction x)
  case (Group c name cs)
  have "mset (concat (map (\<lambda>x. records_of (sortChildren cmp x)) (array_sort (by_code cmp) cs))) =
        mset (concat (map records_of cs))"
    by (rule mset_concat_map_cong) (simp_all add: mset_array_sort set_array_sort Group)
  then show ?case
    by (simp add: records_of.simps(2) comp_def)
next
  case (Occ occ)
  show ?case by simp
qed

lemma mset_records_with_group:
  assumes "\<And>ys. mset (concat (map records_of (k ys))) = add_mset occ (mset (concat (map records_of ys)))"
  shows "mset (concat (map records_of (with_group c name k xs))) =
         add_mset occ (mset (concat (map records_of xs)))"
proof (induction xs)
  case Nil
  show ?case using assms [of "[]"] by (simp add: records_of.simps(2))
next
  case (Cons x xs)
  then show ?case
    using assms by (cases x) (auto simp: records_of.simps(2))
qed

lemma mset_records_insert_at:
  "mset (concat (map records_of (insert_at p (Occ occ) xs))) =
   add_mset occ (mset (concat (map records_of xs)))"
proof (induction p arbitrary: xs)
  case Nil
  show ?case by (simp add: push_def)
next
  case (Cons a p)
  obtain c name where a: "a = (c, name)" by (cases a)
  show ?case unfolding a insert_at.simps
    by (rule mset_records_with_group) (rule Cons.IH)
qed

lemma mset_records_build:
  "mset (concat (map records_of (build occs))) = mset (filter (\<lambda>occ. main_code occ \<noteq> []) occs)"
proof -
  have "mset (concat (map records_of (foldl (\<lambda>g occupation. addOccupation occupation g) xs occs))) =
        mset (filter (\<lambda>occ. main_code occ \<noteq> []) occs) + mset (concat (map records_of xs))" for xs
    by (induction occs arbitrary: xs) (simp_all add: addOccupation_path mset_records_insert_at)
  from this [of "[]"] show ?thesis by (simp add: build_def)
qed

lemma mset_records_organizeOccupations:
  "mset (concat (map records_of (organizeOccupations cmp occs))) =
   mset (filter (\<lambda>occ. split_first CHR ''.'' (code occ) \<noteq> []) occs)"
proof -
  have "mset (concat (map (\<lambda>x. records_of (sortChildren cmp x)) (array_sort (by_code cmp) (build occs)))) =
        mset (concat (map records_of (build occs)))"
    by (rule mset_concat_map_cong) (simp_all add: mset_array_sort mset_records_sortChildren)
  then show ?thesis
    by (simp add: organizeOccupations_build comp_def mset_records_build main_code_def)
qed

lemma unique_forest_simps [simp]:
  "unique_forest []"
  "unique_forest (Occ occ # xs) = unique_forest xs"
  "unique_forest (Group c name cs # xs) =
     (c \<notin> set (group_codes xs) \<and> unique_forest cs \<and> unique_forest xs)"
  by (auto simp: unique_forest_def)

lemma group_codes_snoc_Occ [simp]: "group_codes (xs @ [Occ occ]) = group_codes xs"
  by (induction xs rule: group_codes.induct) simp_all

lemma unique_forest_snoc_Occ [simp]: "unique_forest (xs @ [Occ occ]) = unique_forest xs"
  by (induction xs rule: group_codes.induct) simp_all

lemma set_group_codes_with_group:
  "set (group_codes (with_group c name k xs)) = insert c (set (group_codes xs))"
  by (induction c name k xs rule: with_group.induct) auto

lemma unique_forest_with_group:
  assumes "\<And>ys. unique_forest ys \<Longrightarrow> unique_forest (k ys)"
  shows "unique_forest xs \<Longrightarrow> unique_forest (with_group c name k xs)"
proof (induction xs)
  case Nil
  show ?case using assms [of "[]"] by simp
next
  case (Cons x xs)
  then show ?case
    using assms by (cases x) (auto simp: set_group_codes_with_group)
qed

lemma unique_forest_insert_at:
  "unique_forest xs \<Longrightarrow> unique_forest (insert_at p (Occ occ) xs)"
proof (induction p arbitrary: xs)
  case Nil
  then show ?case by (simp add: push_def)
next
  case (Cons a p)
  obtain c name where a: "a = (c, name)" by (cases a)
  show ?case unfolding a insert_at.simps
    using Cons.IH Cons.prems by (rule unique_forest_with_group)
qed

lemma unique_forest_build: "unique_forest (build occs)"
proof -
  have "unique_forest xs \<Longrightarrow>
      unique_forest (foldl (\<lambda>g occupation. addOccupation occupation g) xs occs)" for xs
    by (induction occs arbitrary: xs) (simp_all add: addOccupation_path unique_forest_insert_at)
  from this [of "[]"] show ?thesis by (simp add: build_def)
qed

lemma mset_group_codes_insert_cmp:
  "mset (group_codes (insert_cmp f x xs)) = mset (group_codes (x # xs))"
proof (induction xs)
  case Nil
  show ?case by simp
next
  case (Cons y ys)
  then show ?case by (cases x; cases y) auto
qed

lemma mset_group_codes_array_sort: "mset (group_codes (array_sort f xs)) = mset (group_codes xs)"
proof (induction xs)
  case Nil
  show ?case by (simp add: array_sort_def)
next
  case (Cons x xs)
  have "mset (group_codes (array_sort f (x # xs))) = mset (group_codes (x # array_sort f xs))"
    by (simp add: array_sort_def mset_group_codes_insert_cmp)
  with Cons show ?case by (cases x) simp_all
qed

lemma group_codes_map_sortChildren: "group_codes (map (sortChildren cmp) xs) = group_codes xs"
  by (induction xs rule: group_codes.induct) simp_all

lemma distinct_group_codes_sorted:
  "distinct (group_codes (map (sortChildren cmp) (array_sort f xs))) = distinct (group_codes xs)"
proof -
  have "mset (group_codes (map (sortChildren cmp) (array_sort f xs))) = mset (group_codes xs)"
    by (simp add: group_codes_map_sortChildren mset_group_codes_array_sort)
  then show ?thesis
    by (rule mset_eq_imp_distinct_iff)
qed

lemma unique_groups_sortChildren: "unique_groups x \<Longrightarrow> unique_groups (sortChildren cmp x)"
proof (induction x)
  case (Group c name cs)
  then show ?case
    by (auto simp: distinct_group_codes_sorted set_array_sort)
next
  case (Occ occ)
  show ?case by simp
qed

lemma unique_groups_groups_of:
  "unique_groups x \<Longrightarrow> g \<in> set (groups_of x) \<Longrightarrow> distinct (group_codes (children g))"
  by (induction x) auto

lemma unique_organizeOccupations:
  "distinct (group_codes (organizeOccupations cmp occs)) \<and>
   (\<forall>root\<in>set (organizeOccupations cmp occs). \<forall>g\<in>set (groups_of root).
      distinct (group_codes (children g)))"
proof -
  have u: "unique_forest (build occs)"
    by (rule unique_forest_build)
  then have "distinct (group_codes (organizeOccupations cmp occs))"
    by (simp add: organizeOccupations_build distinct_group_codes_sorted unique_forest_def)
  moreover have "\<forall>root\<in>set (organizeOccupations cmp occs). unique_groups root"
    using u by (auto simp: organizeOccupations_build set_array_sort unique_forest_def
        unique_groups_sortChildren)
  ultimately show ?thesis
    using unique_groups_groups_of by blast
qed

text \<open>
  C2, as the code has it: a record whose code has a non-empty part \<open>m\<close> before the first
  \<open>.\<close> is a child of the unit group \<open>m\<close> when \<open>m\<close> has exactly four characters, of the
  minor group of its first three characters when \<open>m\<close> has three characters or more than
  four, of the sub-major group when it has two, and of the major group when it has one. The
  groups are reached from the roots through the groups of the shorter prefixes. The records
  of the tree are the records of the input whose code has a non-empty part before the first
  \<open>.\<close>, each as many times as in the input: a record is placed once, and a record whose
  code is empty or starts with \<open>.\<close> is not placed. No two groups among the roots, or
  among the children of one group, have the same code, so the group that a record is
  attached to is the only group on that path. This holds for every collation.
\<close>

theorem placement_of_records:
  "(occ \<in> set occs \<and> m = split_first CHR ''.'' (code occ) \<and> m \<noteq> [] \<longrightarrow>
      attached occ
        (if length m = 4 then [take 1 m, take 2 m, take 3 m, m]
         else if 3 \<le> length m then [take 1 m, take 2 m, take 3 m]
         else if length m = 2 then [take 1 m, m]
         else [m])
        (organizeOccupations localeCompare occs)) \<and>
   mset (concat (map records_of (organizeOccupations localeCompare occs))) =
     mset (filter (\<lambda>occ. split_first CHR ''.'' (code occ) \<noteq> []) occs) \<and>
   distinct (group_codes (organizeOccupations localeCompare occs)) \<and>
   (\<forall>root\<in>set (organizeOccupations localeCompare occs). \<forall>g\<in>set (groups_of root).
      distinct (group_codes (children g)))"
  using placement_attached [of occ occs m localeCompare]
    mset_records_organizeOccupations [of localeCompare occs]
    unique_organizeOccupations [of localeCompare occs]
  by blast

text \<open>
  C2 as stated fails: the part before the dot of the code \<open>25123\<close> has more than four
  characters, and the record is a child of the minor group \<open>251\<close>, not of a unit group
  \<open>2512\<close>; the code \<open>.5\<close> is not empty, and the record is in no group at all.
\<close>

theorem placement_counterexample:
  "4 \<le> length (split_first CHR ''.'' (code long_code)) \<and>
   \<not> attached long_code [''2'', ''25'', ''251'', ''2512''] (organizeOccupations lex_compare [long_code]) \<and>
   attached long_code [''2'', ''25'', ''251''] (organizeOccupations lex_compare [long_code]) \<and>
   code dot_first \<noteq> [] \<and> organizeOccupations lex_compare [dot_first] = []"
  unfolding tree_long_code tree_dot_first
  by (simp add: attached_Cons_iff example_codes split_first_def)

theorem placement_of_records_witness:
  "developer \<in> set [dot_first, analyst, developer] \<and>
   ''2512'' = split_first CHR ''.'' (code developer) \<and> ''2512'' \<noteq> [] \<and>
   attached developer [''2'', ''25'', ''251'', ''2512'']
     (organizeOccupations lex_compare [dot_first, analyst, developer]) \<and>
   mset (concat (map records_of (organizeOccupations lex_compare [dot_first, analyst, developer]))) =
     mset [analyst, developer] \<and>
   distinct (group_codes (organizeOccupations lex_compare [dot_first, analyst, developer]))"
proof -
  have m: "''2512'' = split_first CHR ''.'' (code developer)"
    by (simp add: example_codes split_first_def)
  have "developer \<in> set [dot_first, analyst, developer]"
    by simp
  have f: "filter (\<lambda>occ. split_first CHR ''.'' (code occ) \<noteq> []) [dot_first, analyst, developer] =
      [analyst, developer]"
    by (simp add: example_codes split_first_def)
  from placement_of_records [of developer "[dot_first, analyst, developer]" "''2512''" lex_compare]
  show ?thesis
    unfolding f by (simp add: m [symmetric])
qed

text \<open>
  C3 as stated fails: the record with code \<open>2512\<close> is below the unit group \<open>2512\<close>, whose
  code is the whole code of the record.
\<close>

theorem group_code_is_prefix_counterexample:
  "Group ''2512'' ''Group 2512'' [Occ developer]
     \<in> set (groups_of (hd (organizeOccupations lex_compare [developer]))) \<and>
   developer \<in> set (records_of (Group ''2512'' ''Group 2512'' [Occ developer])) \<and>
   \<not> strict_prefix (group_code (Group ''2512'' ''Group 2512'' [Occ developer])) (code developer)"
  unfolding tree_developer by (simp add: example_codes records_of.simps)

theorem group_code_is_prefix_witness:
  "hd (organizeOccupations lex_compare [developer]) \<in> set (organizeOccupations lex_compare [developer]) \<and>
   Group ''2512'' ''Group 2512'' [Occ developer]
     \<in> set (groups_of (hd (organizeOccupations lex_compare [developer]))) \<and>
   developer \<in> set (records_of (Group ''2512'' ''Group 2512'' [Occ developer])) \<and>
   prefix (group_code (Group ''2512'' ''Group 2512'' [Occ developer])) (code developer)"
  using group_code_is_prefix [of lex_compare "[developer]"]
  unfolding tree_developer by (simp add: records_of.simps)

lemma level_ok_with_group:
  assumes "length c = Suc d"
    and "\<And>ys. \<forall>x\<in>set ys. level_ok (Suc d) x \<Longrightarrow> \<forall>x\<in>set (k ys). level_ok (Suc d) x"
  shows "\<forall>x\<in>set xs. level_ok d x \<Longrightarrow> \<forall>x\<in>set (with_group c name k xs). level_ok d x"
proof (induction xs)
  case Nil
  have "\<forall>x\<in>set (k []). level_ok (Suc d) x"
    using assms(2) [of "[]"] by simp
  then show ?case
    using assms(1) by simp
next
  case (Cons x xs)
  show ?case
  proof (cases x)
    case (Group c' name' cs)
    show ?thesis
    proof (cases "c' = c")
      case True
      have "\<forall>x\<in>set cs. level_ok (Suc d) x"
        using Cons.prems Group by simp
      then have "\<forall>x\<in>set (k cs). level_ok (Suc d) x"
        by (rule assms(2))
      then show ?thesis
        using Cons.prems Group True by simp
    next
      case False
      then show ?thesis
        using Cons Group by simp
    qed
  next
    case (Occ occ')
    then show ?thesis
      using Cons by simp
  qed
qed

lemma level_ok_insert_at:
  "path_ok d p \<Longrightarrow> \<forall>x\<in>set xs. level_ok d x \<Longrightarrow> \<forall>x\<in>set (insert_at p (Occ occ) xs). level_ok d x"
proof (induction p arbitrary: d xs)
  case Nil
  then show ?case by (simp add: push_def)
next
  case (Cons a p)
  obtain c name where a: "a = (c, name)" by (cases a)
  show ?case unfolding a insert_at.simps
  proof (rule level_ok_with_group)
    show "length c = Suc d"
      using Cons.prems(1) a by simp
    show "\<forall>x\<in>set ys. level_ok (Suc d) x \<Longrightarrow> \<forall>x\<in>set (insert_at p (Occ occ) ys). level_ok (Suc d) x" for ys
      using Cons.IH [of "Suc d" ys] Cons.prems(1) a by simp
    show "\<forall>x\<in>set xs. level_ok d x"
      by (rule Cons.prems(2))
  qed
qed

lemma path_ok_path_of: "m \<noteq> [] \<Longrightarrow> path_ok 0 (path_of m)"
  by (cases m) (auto simp: path_of_def)

lemma level_ok_addOccupation:
  assumes "\<forall>x\<in>set xs. level_ok 0 x"
  shows "\<forall>x\<in>set (addOccupation occ xs). level_ok 0 x"
proof (cases "main_code occ = []")
  case True
  then show ?thesis using assms by (simp add: addOccupation_path)
next
  case False
  then have "\<forall>x\<in>set (insert_at (path_of (main_code occ)) (Occ occ) xs). level_ok 0 x"
    using assms by (intro level_ok_insert_at path_ok_path_of)
  then show ?thesis using False by (simp add: addOccupation_path)
qed

lemma level_ok_build: "\<forall>x\<in>set (build occs). level_ok 0 x"
proof -
  have "\<forall>x\<in>set xs. level_ok 0 x \<Longrightarrow>
      \<forall>x\<in>set (foldl (\<lambda>g occupation. addOccupation occupation g) xs occs). level_ok 0 x" for xs
  proof (induction occs arbitrary: xs)
    case Nil
    then show ?case by simp
  next
    case (Cons a occs)
    then show ?case
      using level_ok_addOccupation [of xs a] by simp
  qed
  from this [of "[]"] show ?thesis by (simp add: build_def)
qed

lemma level_ok_sortChildren: "level_ok d x \<Longrightarrow> level_ok d (sortChildren cmp x)"
proof (induction cmp x arbitrary: d rule: sortChildren.induct)
  case (1 cmp c name cs)
  then show ?case
    by (auto simp: set_array_sort)
next
  case (2 cmp occ)
  show ?case by simp
qed

text \<open>
  C10: the branch for a four-character code without a minor group is never taken. When the
  two-character prefix exists and the three-character prefix does not, the part of the code
  before the dot has at most two characters. In every tree that \<open>organizeOccupations\<close>
  returns, a group at depth \<open>d\<close> (the roots are at depth 0) has a code of \<open>d + 1\<close>
  characters: a unit group, with four characters, is the child of a group with three,
  a minor group, and never the child of a sub-major group, where that branch would put it.
\<close>

theorem unit_group_below_minor_group:
  "(length (substring m 0 2) = 2 \<and> length (substring m 0 3) \<noteq> 3 \<longrightarrow> length m \<le> 2 \<and> length m \<noteq> 4) \<and>
   (\<forall>root\<in>set (organizeOccupations localeCompare occs). level_ok 0 root)"
proof
  show "length (substring m 0 2) = 2 \<and> length (substring m 0 3) \<noteq> 3 \<longrightarrow> length m \<le> 2 \<and> length m \<noteq> 4"
    by (auto simp: substring_def)
  show "\<forall>root\<in>set (organizeOccupations localeCompare occs). level_ok 0 root"
    using level_ok_build [of occs]
    by (auto simp: organizeOccupations_build set_array_sort level_ok_sortChildren)
qed

theorem unit_group_below_minor_group_witness:
  "length (substring ''25'' 0 2) = 2 \<and> length (substring ''25'' 0 3) \<noteq> 3 \<and> length ''25'' \<le> 2 \<and>
   hd (organizeOccupations lex_compare [developer]) \<in> set (organizeOccupations lex_compare [developer]) \<and>
   level_ok 0 (hd (organizeOccupations lex_compare [developer]))"
  using unit_group_below_minor_group [of "''25''" lex_compare "[developer]"]
  unfolding tree_developer by (simp add: substring_def)

lemma lex_compare_le: "lex_compare a b \<le> 0 \<longleftrightarrow> a \<le> b"
  by (auto simp: lex_compare_def)

section \<open>Order of the children and order of the input\<close>

lemma collation_total: "collation cmp \<Longrightarrow> by_code cmp x y \<le> 0 \<or> by_code cmp y x \<le> 0"
  by (simp add: collation_def by_code_def)

lemma collation_trans:
  "collation cmp \<Longrightarrow> by_code cmp x y \<le> 0 \<Longrightarrow> by_code cmp y z \<le> 0 \<Longrightarrow> by_code cmp x z \<le> 0"
  unfolding collation_def by_code_def by blast

lemma insert_cmp_insert_after:
  fixes f :: "'a \<Rightarrow> 'a \<Rightarrow> int"
  assumes total: "\<And>x y. f x y \<le> 0 \<or> f y x \<le> 0"
    and trans: "\<And>x y z. f x y \<le> 0 \<Longrightarrow> f y z \<le> 0 \<Longrightarrow> f x z \<le> 0"
  shows "insert_cmp f a (insert_after f x L) = insert_after f x (insert_cmp f a L)"
proof (induction L)
  case Nil
  show ?case using total [of a x] by auto
next
  case (Cons y L)
  show ?case
    using Cons total [of a x] total [of a y] total [of x y] trans [of a y x] trans [of x a y]
      trans [of y x a] trans [of a x y] trans [of y a x] trans [of x y a]
    by auto
qed

lemma array_sort_snoc:
  fixes f :: "'a \<Rightarrow> 'a \<Rightarrow> int"
  assumes total: "\<And>x y. f x y \<le> 0 \<or> f y x \<le> 0"
    and trans: "\<And>x y z. f x y \<le> 0 \<Longrightarrow> f y z \<le> 0 \<Longrightarrow> f x z \<le> 0"
  shows "array_sort f (xs @ [x]) = insert_after f x (array_sort f xs)"
proof (induction xs)
  case Nil
  show ?case by (simp add: array_sort_def)
next
  case (Cons a xs)
  have "array_sort f ((a # xs) @ [x]) = insert_cmp f a (array_sort f (xs @ [x]))"
    by (simp add: array_sort_def)
  also have "\<dots> = insert_cmp f a (insert_after f x (array_sort f xs))"
    by (simp add: Cons)
  also have "\<dots> = insert_after f x (insert_cmp f a (array_sort f xs))"
    using total trans by (rule insert_cmp_insert_after)
  finally show ?case by (simp add: array_sort_def)
qed

lemma insert_after_commute:
  fixes f :: "'a \<Rightarrow> 'a \<Rightarrow> int"
  assumes total: "\<And>x y. f x y \<le> 0 \<or> f y x \<le> 0"
    and trans: "\<And>x y z. f x y \<le> 0 \<Longrightarrow> f y z \<le> 0 \<Longrightarrow> f x z \<le> 0"
    and apart: "\<not> (f x y \<le> 0 \<and> f y x \<le> 0)"
  shows "insert_after f x (insert_after f y L) = insert_after f y (insert_after f x L)"
proof (induction L)
  case Nil
  show ?case using total [of x y] apart by auto
next
  case (Cons z L)
  show ?case
    using Cons apart total [of x y] total [of x z] total [of y z] trans [of x z y] trans [of y z x]
      trans [of z x y] trans [of z y x] trans [of x y z] trans [of y x z]
    by auto
qed

lemma sorted_insert_cmp:
  fixes f :: "'a \<Rightarrow> 'a \<Rightarrow> int"
  assumes total: "\<And>x y. f x y \<le> 0 \<or> f y x \<le> 0"
    and trans: "\<And>x y z. f x y \<le> 0 \<Longrightarrow> f y z \<le> 0 \<Longrightarrow> f x z \<le> 0"
  shows "sorted_wrt (\<lambda>a b. f a b \<le> 0) L \<Longrightarrow> sorted_wrt (\<lambda>a b. f a b \<le> 0) (insert_cmp f x L)"
proof (induction L)
  case Nil
  show ?case by simp
next
  case (Cons y L)
  show ?case
  proof (cases "f x y \<le> 0")
    case True
    then have "\<forall>z\<in>set L. f x z \<le> 0"
      using Cons.prems trans [of x y] by auto
    with True Cons.prems show ?thesis by simp
  next
    case False
    then have "f y x \<le> 0"
      using total [of x y] by simp
    with False Cons show ?thesis
      by (auto simp: set_insert_cmp)
  qed
qed

lemma sorted_array_sort:
  fixes f :: "'a \<Rightarrow> 'a \<Rightarrow> int"
  assumes total: "\<And>x y. f x y \<le> 0 \<or> f y x \<le> 0"
    and trans: "\<And>x y z. f x y \<le> 0 \<Longrightarrow> f y z \<le> 0 \<Longrightarrow> f x z \<le> 0"
  shows "sorted_wrt (\<lambda>a b. f a b \<le> 0) (array_sort f xs)"
proof (induction xs)
  case Nil
  show ?case by (simp add: array_sort_def)
next
  case (Cons a xs)
  have "sorted_wrt (\<lambda>a b. f a b \<le> 0) (insert_cmp f a (array_sort f xs))"
    using total trans Cons by (rule sorted_insert_cmp)
  then show ?case by (simp add: array_sort_def)
qed

lemma by_code_sortChildren [simp]:
  "by_code cmp (sortChildren cmp' x) y = by_code cmp x y"
  "by_code cmp x (sortChildren cmp' y) = by_code cmp x y"
  by (simp_all add: by_code_def)

lemma sorted_by_code:
  assumes "collation cmp"
  shows "sorted_wrt (\<lambda>a b. by_code cmp a b \<le> 0) (array_sort (by_code cmp) xs)"
  by (rule sorted_array_sort) (use assms collation_total collation_trans in blast)+

lemma ordered_sortChildren:
  assumes "collation cmp"
  shows "ordered_node cmp (sortChildren cmp x)"
proof (induction x)
  case (Group c name cs)
  have "\<forall>x\<in>set cs. ordered_node cmp (sortChildren cmp x)"
    using Group by simp
  then show ?case
    using sorted_by_code [OF assms, of cs]
    by (simp add: sorted_wrt_map set_array_sort)
next
  case (Occ occ)
  show ?case by simp
qed

lemma ordered_node_groups_of:
  "ordered_node cmp x \<Longrightarrow> g \<in> set (groups_of x) \<Longrightarrow>
   sorted_wrt (\<lambda>a b. by_code cmp a b \<le> 0) (children g)"
  by (induction x) auto

text \<open>
  C7, as the code has it: the roots and the children of every group of the tree are in
  the order of the collation that \<open>localeCompare\<close> implements, pair by adjacent pair, with
  the same key for groups and records. It is the order of the code units when the
  collation is the lexicographic comparison.
\<close>

theorem children_sorted_by_collation:
  assumes "collation localeCompare"
  shows
  "(\<forall>i. Suc i < length (organizeOccupations localeCompare occs) \<longrightarrow>
      localeCompare (node_code (organizeOccupations localeCompare occs ! i))
        (node_code (organizeOccupations localeCompare occs ! Suc i)) \<le> 0) \<and>
   (\<forall>root\<in>set (organizeOccupations localeCompare occs). \<forall>g\<in>set (groups_of root).
      \<forall>i. Suc i < length (children g) \<longrightarrow>
        localeCompare (node_code (children g ! i)) (node_code (children g ! Suc i)) \<le> 0)"
proof (intro conjI allI ballI impI)
  let ?T = "organizeOccupations localeCompare occs"
  have "sorted_wrt (\<lambda>a b. by_code localeCompare a b \<le> 0) ?T"
    using sorted_by_code [OF assms, of "build occs"]
    by (simp add: organizeOccupations_build sorted_wrt_map)
  moreover fix i assume "Suc i < length ?T"
  ultimately have "by_code localeCompare (?T ! i) (?T ! Suc i) \<le> 0"
    by (intro sorted_wrt_nth_less) auto
  then show "localeCompare (node_code (?T ! i)) (node_code (?T ! Suc i)) \<le> 0"
    by (simp add: by_code_def)
next
  let ?T = "organizeOccupations localeCompare occs"
  fix root g i
  assume root: "root \<in> set ?T" and g: "g \<in> set (groups_of root)" and i: "Suc i < length (children g)"
  have "ordered_node localeCompare root"
    using root by (auto simp: organizeOccupations_build ordered_sortChildren [OF assms])
  then have "sorted_wrt (\<lambda>a b. by_code localeCompare a b \<le> 0) (children g)"
    using g by (rule ordered_node_groups_of)
  then have "by_code localeCompare (children g ! i) (children g ! Suc i) \<le> 0"
    using i by (intro sorted_wrt_nth_less) auto
  then show "localeCompare (node_code (children g ! i)) (node_code (children g ! Suc i)) \<le> 0"
    by (simp add: by_code_def)
qed

lemma with_group_alt:
  "with_group c name k xs =
     (if has_group c xs then update_group c k xs else xs @ [Group c name (k [])])"
  by (induction c name k xs rule: with_group.induct) auto

lemma by_code_update_group_elem:
  "by_code cmp (Group c name (k cs)) y = by_code cmp (Group c name cs) y"
  "by_code cmp y (Group c name (k cs)) = by_code cmp y (Group c name cs)"
  by (simp_all add: by_code_def)

lemma insert_cmp_update_group:
  "\<not> is_group_with c x \<Longrightarrow>
   insert_cmp (by_code cmp) x (update_group c k L) = update_group c k (insert_cmp (by_code cmp) x L)"
proof (induction L)
  case Nil
  then show ?case by (cases x) auto
next
  case (Cons y L)
  then show ?case by (cases x; cases y) (auto simp: by_code_def)
qed

lemma update_group_insert_cmp_same:
  assumes "collation cmp"
  shows "update_group c k (insert_cmp (by_code cmp) (Group c name cs) L) =
         insert_cmp (by_code cmp) (Group c name (k cs)) L"
proof (induction L)
  case Nil
  show ?case by simp
next
  case (Cons y L)
  have refl: "cmp c c \<le> 0"
    using assms by (auto simp: collation_def)
  show ?case
    using Cons refl by (cases y) (auto simp: by_code_def)
qed

lemma array_sort_update_group:
  assumes "collation cmp"
  shows "array_sort (by_code cmp) (update_group c k xs) = update_group c k (array_sort (by_code cmp) xs)"
proof (induction xs)
  case Nil
  show ?case by (simp add: array_sort_def)
next
  case (Cons x xs)
  show ?case
  proof (cases "is_group_with c x")
    case True
    then obtain name cs where x: "x = Group c name cs"
      by (cases x) auto
    show ?thesis
      using update_group_insert_cmp_same [OF assms, of c k name cs "array_sort (by_code cmp) xs"]
      by (simp add: x array_sort_def)
  next
    case False
    then have "update_group c k (x # xs) = x # update_group c k xs"
      by (cases x) auto
    then have "array_sort (by_code cmp) (update_group c k (x # xs)) =
        insert_cmp (by_code cmp) x (array_sort (by_code cmp) (update_group c k xs))"
      by (simp add: array_sort_def)
    also have "\<dots> = insert_cmp (by_code cmp) x (update_group c k (array_sort (by_code cmp) xs))"
      by (simp add: Cons)
    also have "\<dots> = update_group c k (insert_cmp (by_code cmp) x (array_sort (by_code cmp) xs))"
      using False by (rule insert_cmp_update_group)
    finally show ?thesis by (simp add: array_sort_def)
  qed
qed

lemma sortChildren_Group:
  "sortChildren cmp (Group c name cs) = Group c name (sort_forest cmp cs)"
  by (simp add: sort_forest_def)

lemma map_sortChildren_update_group:
  assumes "\<And>cs. sort_forest cmp (k cs) = k' (sort_forest cmp cs)"
  shows "map (sortChildren cmp) (update_group c k L) =
         update_group c k' (map (sortChildren cmp) L)"
proof (induction L)
  case Nil
  show ?case by simp
next
  case (Cons y L)
  then show ?case
    by (cases y) (auto simp: sortChildren_Group assms simp del: sortChildren.simps(1))
qed

lemma map_sortChildren_insert_after:
  "map (sortChildren cmp) (insert_after (by_code cmp) x L) =
   insert_after (by_code cmp) (sortChildren cmp x) (map (sortChildren cmp) L)"
  by (induction L) auto

lemma has_group_insert_cmp:
  "has_group c (insert_cmp f x L) = (is_group_with c x \<or> has_group c L)"
proof (induction L)
  case Nil
  show ?case by (cases x) auto
next
  case (Cons y L)
  then show ?case by (cases x; cases y) auto
qed

lemma has_group_array_sort: "has_group c (array_sort f xs) = has_group c xs"
proof (induction xs)
  case Nil
  show ?case by (simp add: array_sort_def)
next
  case (Cons x xs)
  then show ?case by (cases x) (auto simp: has_group_insert_cmp array_sort_def)
qed

lemma has_group_map_sortChildren: "has_group c (map (sortChildren cmp) L) = has_group c L"
proof (induction L)
  case Nil
  show ?case by simp
next
  case (Cons y L)
  then show ?case by (cases y) auto
qed

lemma has_group_sort_forest: "has_group c (sort_forest cmp xs) = has_group c xs"
  by (simp add: sort_forest_def has_group_map_sortChildren has_group_array_sort)

lemma sort_forest_Nil [simp]: "sort_forest cmp [] = []"
  by (simp add: sort_forest_def array_sort_def)

lemma sort_forest_snoc:
  assumes "collation cmp"
  shows "sort_forest cmp (xs @ [x]) =
         insert_after (by_code cmp) (sortChildren cmp x) (sort_forest cmp xs)"
proof -
  have "array_sort (by_code cmp) (xs @ [x]) = insert_after (by_code cmp) x (array_sort (by_code cmp) xs)"
    by (rule array_sort_snoc) (use assms collation_total collation_trans in blast)+
  then show ?thesis
    by (simp add: sort_forest_def map_sortChildren_insert_after)
qed

lemma sort_forest_with_group:
  assumes "collation cmp" and "\<And>cs. sort_forest cmp (k cs) = k' (sort_forest cmp cs)"
  shows "sort_forest cmp (with_group c name k xs) = with_group_sorted cmp c name k' (sort_forest cmp xs)"
proof (cases "has_group c xs")
  case True
  have "sort_forest cmp (update_group c k xs) = update_group c k' (sort_forest cmp xs)"
    unfolding sort_forest_def array_sort_update_group [OF assms(1)]
    using assms(2) by (rule map_sortChildren_update_group)
  with True show ?thesis
    by (simp add: with_group_alt with_group_sorted_def has_group_sort_forest)
next
  case False
  have "sort_forest cmp (xs @ [Group c name (k [])]) =
        insert_after (by_code cmp) (Group c name (k' [])) (sort_forest cmp xs)"
    using assms(2) [of "[]"]
    by (simp add: sort_forest_snoc [OF assms(1)] sortChildren_Group del: sortChildren.simps(1))
  with False show ?thesis
    by (simp add: with_group_alt with_group_sorted_def has_group_sort_forest)
qed

lemma sort_forest_insert_at:
  assumes "collation cmp"
  shows "sort_forest cmp (insert_at p (Occ occ) xs) = insert_sorted cmp p (Occ occ) (sort_forest cmp xs)"
proof (induction p arbitrary: xs)
  case Nil
  show ?case
    by (simp add: push_def sort_forest_snoc [OF assms])
next
  case (Cons a p)
  obtain c name where a: "a = (c, name)" by (cases a)
  show ?case
    unfolding a insert_at.simps insert_sorted.simps
    using assms by (rule sort_forest_with_group) (rule Cons.IH)
qed

lemma sort_forest_addOccupation:
  "collation cmp \<Longrightarrow> sort_forest cmp (addOccupation occ xs) = add_sorted cmp occ (sort_forest cmp xs)"
  by (simp add: addOccupation_path add_sorted_def sort_forest_insert_at)

lemma sort_forest_foldl:
  "collation cmp \<Longrightarrow>
   sort_forest cmp (foldl (\<lambda>g occupation. addOccupation occupation g) xs occs) =
   fold (add_sorted cmp) occs (sort_forest cmp xs)"
  by (induction occs arbitrary: xs) (simp_all add: sort_forest_addOccupation)

lemma organizeOccupations_fold:
  "collation cmp \<Longrightarrow> organizeOccupations cmp occs = fold (add_sorted cmp) occs []"
  using sort_forest_foldl [of cmp "[]" occs]
  by (simp add: organizeOccupations_def sort_forest_def array_sort_def)

lemma by_code_apart:
  "\<not> ties cmp (node_code x) (node_code y) \<Longrightarrow>
   \<not> (by_code cmp x y \<le> 0 \<and> by_code cmp y x \<le> 0)"
  by (simp add: ties_def by_code_def)

lemma insert_after_by_code_commute:
  assumes "collation cmp" and "\<not> ties cmp (node_code x) (node_code y)"
  shows "insert_after (by_code cmp) x (insert_after (by_code cmp) y L) =
         insert_after (by_code cmp) y (insert_after (by_code cmp) x L)"
proof (rule insert_after_commute)
  show "by_code cmp a b \<le> 0 \<or> by_code cmp b a \<le> 0" for a b
    using assms(1) by (rule collation_total)
  show "by_code cmp a b \<le> 0 \<Longrightarrow> by_code cmp b c \<le> 0 \<Longrightarrow> by_code cmp a c \<le> 0" for a b c
    using assms(1) by (rule collation_trans)
  show "\<not> (by_code cmp x y \<le> 0 \<and> by_code cmp y x \<le> 0)"
    using assms(2) by (rule by_code_apart)
qed

lemma not_group_with: "node_code x \<noteq> c \<Longrightarrow> \<not> is_group_with c x"
  by (cases x) auto

lemma insert_after_update_group:
  "\<not> is_group_with c x \<Longrightarrow>
   insert_after (by_code cmp) x (update_group c k L) = update_group c k (insert_after (by_code cmp) x L)"
proof (induction L)
  case Nil
  then show ?case by (cases x) auto
next
  case (Cons y L)
  then show ?case by (cases x; cases y) (auto simp: by_code_def)
qed

lemma update_group_commute:
  "c \<noteq> d \<Longrightarrow> update_group c k (update_group d l L) = update_group d l (update_group c k L)"
proof (induction L)
  case Nil
  show ?case by simp
next
  case (Cons y L)
  then show ?case by (cases y) auto
qed

lemma update_group_twice:
  "update_group c k (update_group c l L) = update_group c (\<lambda>cs. k (l cs)) L"
proof (induction L)
  case Nil
  show ?case by simp
next
  case (Cons y L)
  then show ?case by (cases y) auto
qed

lemma update_group_insert_after_new:
  "\<not> has_group c L \<Longrightarrow>
   update_group c k (insert_after (by_code cmp) (Group c name cs) L) =
   insert_after (by_code cmp) (Group c name (k cs)) L"
proof (induction L)
  case Nil
  show ?case by simp
next
  case (Cons y L)
  then show ?case by (cases y) (auto simp: by_code_def)
qed

lemma has_group_insert_after:
  "has_group c (insert_after f x L) = (is_group_with c x \<or> has_group c L)"
proof (induction L)
  case Nil
  show ?case by (cases x) auto
next
  case (Cons y L)
  then show ?case by (cases x; cases y) auto
qed

lemma has_group_update_group: "has_group c (update_group d k L) = has_group c L"
proof (induction L)
  case Nil
  show ?case by simp
next
  case (Cons y L)
  then show ?case by (cases y) auto
qed

lemma with_group_sorted_commute:
  assumes "collation cmp" and "c \<noteq> d" and "\<not> ties cmp c d"
  shows "with_group_sorted cmp c name k (with_group_sorted cmp d name' l L) =
         with_group_sorted cmp d name' l (with_group_sorted cmp c name k L)"
proof -
  have "insert_after (by_code cmp) (Group c name (k [])) (insert_after (by_code cmp) (Group d name' (l [])) L) =
        insert_after (by_code cmp) (Group d name' (l [])) (insert_after (by_code cmp) (Group c name (k [])) L)"
    using assms(1,3) by (intro insert_after_by_code_commute) auto
  then show ?thesis
    using assms(2)
    by (auto simp: with_group_sorted_def has_group_insert_after has_group_update_group
        update_group_commute insert_after_update_group)
qed

lemma with_group_sorted_same:
  assumes "\<And>ys. k (l ys) = l (k ys)"
  shows "with_group_sorted cmp c name k (with_group_sorted cmp c name l L) =
         with_group_sorted cmp c name l (with_group_sorted cmp c name k L)"
  using assms
  by (auto simp: with_group_sorted_def has_group_insert_after has_group_update_group
      update_group_twice update_group_insert_after_new)

lemma insert_after_with_group_sorted:
  assumes "collation cmp" and "node_code x \<noteq> c" and "\<not> ties cmp (node_code x) c"
  shows "insert_after (by_code cmp) x (with_group_sorted cmp c name k L) =
         with_group_sorted cmp c name k (insert_after (by_code cmp) x L)"
proof -
  have "insert_after (by_code cmp) x (insert_after (by_code cmp) (Group c name (k [])) L) =
        insert_after (by_code cmp) (Group c name (k [])) (insert_after (by_code cmp) x L)"
    using assms(1,3) by (intro insert_after_by_code_commute) auto
  then show ?thesis
    using not_group_with [OF assms(2)]
    by (auto simp: with_group_sorted_def has_group_insert_after insert_after_update_group)
qed

lemma apart_keys_mono: "apart_keys cmp K \<Longrightarrow> K' \<subseteq> K \<Longrightarrow> apart_keys cmp K'"
  unfolding apart_keys_def by blast

lemma apart_keysD: "apart_keys cmp K \<Longrightarrow> a \<in> K \<Longrightarrow> b \<in> K \<Longrightarrow> a \<noteq> b \<Longrightarrow> \<not> ties cmp a b"
  unfolding apart_keys_def by blast

lemma insert_sorted_commute:
  assumes "collation cmp"
  shows "compat p x q y \<Longrightarrow>
   apart_keys cmp (insert (node_code x) (insert (node_code y) (fst ` set p \<union> fst ` set q))) \<Longrightarrow>
   insert_sorted cmp p x (insert_sorted cmp q y L) = insert_sorted cmp q y (insert_sorted cmp p x L)"
proof (induction p x q y arbitrary: L rule: compat.induct)
  case (1 x y)
  then have "\<not> ties cmp (node_code x) (node_code y)"
    by (auto dest: apart_keysD)
  with assms show ?case
    unfolding insert_sorted.simps by (rule insert_after_by_code_commute)
next
  case (2 x d name' q y)
  then have "node_code x \<noteq> d" "\<not> ties cmp (node_code x) d"
    by (auto dest: apart_keysD)
  with assms show ?case
    unfolding insert_sorted.simps by (rule insert_after_with_group_sorted)
next
  case (3 c name p x y)
  then have "node_code y \<noteq> c" "\<not> ties cmp (node_code y) c"
    by (auto dest: apart_keysD)
  with assms show ?case
    unfolding insert_sorted.simps by (rule insert_after_with_group_sorted [symmetric])
next
  case (4 c name p x d name' q y)
  show ?case
  proof (cases "c = d")
    case True
    have "apart_keys cmp (insert (node_code x) (insert (node_code y) (fst ` set p \<union> fst ` set q)))"
      using "4.prems"(2) by (rule apart_keys_mono) auto
    with 4 True have "name = name'" and "\<And>ys. insert_sorted cmp p x (insert_sorted cmp q y ys) =
        insert_sorted cmp q y (insert_sorted cmp p x ys)"
      by auto
    then show ?thesis
      unfolding insert_sorted.simps True by (simp only: with_group_sorted_same)
  next
    case False
    then have "\<not> ties cmp c d"
      using "4.prems"(2) by (auto dest: apart_keysD)
    with assms False show ?thesis
      unfolding insert_sorted.simps by (rule with_group_sorted_commute)
  qed
qed

lemma compat_struct:
  "path_wf d p \<Longrightarrow> path_wf d q \<Longrightarrow> \<not> fits (d + length p) (node_code x) \<Longrightarrow>
   \<not> fits (d + length q) (node_code y) \<Longrightarrow> node_code x \<noteq> node_code y \<Longrightarrow> compat p x q y"
proof (induction p x q y arbitrary: d rule: compat.induct)
  case (1 x y)
  then show ?case by simp
next
  case (2 x d' name' q y)
  then show ?case by (auto simp: fits_def)
next
  case (3 c name p x y)
  then show ?case by (auto simp: fits_def)
next
  case (4 c name p x d' name' q y)
  show ?case
  proof (cases "c = d'")
    case True
    have "compat p x q y"
      using 4 True by (intro "4.IH" [of "Suc d"]) auto
    with 4 True show ?thesis by simp
  next
    case False
    then show ?thesis by simp
  qed
qed

lemma no_dot_main_code: "CHR ''.'' \<notin> set (main_code occ)"
  unfolding main_code_def split_first_def
  by (auto dest: set_takeWhileD)

lemma main_code_no_dot: "CHR ''.'' \<notin> set (code occ) \<Longrightarrow> main_code occ = code occ"
  unfolding main_code_def split_first_def
  by (auto simp: takeWhile_eq_all_conv)

lemma path_wf_path_of: "m \<noteq> [] \<Longrightarrow> CHR ''.'' \<notin> set m \<Longrightarrow> path_wf 0 (path_of m)"
  by (cases m) (auto simp: path_of_def level_name_def dest: in_set_takeD)

lemma length_path_of:
  "length (path_of m) = (if length m \<le> 1 then 1 else if length m = 2 then 2 else if length m = 4 then 4 else 3)"
  by (auto simp: path_of_def)

lemma not_fits_path_of:
  assumes "main_code occ \<noteq> []"
  shows "\<not> fits (length (path_of (main_code occ))) (code occ)"
proof
  assume f: "fits (length (path_of (main_code occ))) (code occ)"
  then have "main_code occ = code occ"
    by (simp add: fits_def main_code_no_dot)
  with f have "length (main_code occ) = Suc (length (path_of (main_code occ)))"
    by (simp add: fits_def)
  then show False
    using assms by (simp add: length_path_of split: if_splits)
qed

lemma compat_path_of:
  assumes "main_code a \<noteq> []" and "main_code b \<noteq> []" and "code a \<noteq> code b"
  shows "compat (path_of (main_code a)) (Occ a) (path_of (main_code b)) (Occ b)"
proof (rule compat_struct [where d = 0])
  show "path_wf 0 (path_of (main_code a))"
    using assms(1) no_dot_main_code by (rule path_wf_path_of)
  show "path_wf 0 (path_of (main_code b))"
    using assms(2) no_dot_main_code by (rule path_wf_path_of)
  show "\<not> fits (0 + length (path_of (main_code a))) (node_code (Occ a))"
    using not_fits_path_of [OF assms(1)] by simp
  show "\<not> fits (0 + length (path_of (main_code b))) (node_code (Occ b))"
    using not_fits_path_of [OF assms(2)] by simp
  show "node_code (Occ a) \<noteq> node_code (Occ b)"
    using assms(3) by simp
qed

lemma path_of_keys: "fst ` set (path_of (main_code occ)) \<subseteq> set (keys_of occ)"
  by (auto simp: path_of_def keys_of_def main_code_def Let_def)

lemma code_in_keys: "code occ \<in> set (keys_of occ)"
  by (simp add: keys_of_def Let_def)

lemma add_sorted_commute:
  assumes "collation cmp" and "code a \<noteq> code b \<or> a = b"
    and "apart_keys cmp (set (keys_of a) \<union> set (keys_of b))"
  shows "add_sorted cmp a \<circ> add_sorted cmp b = add_sorted cmp b \<circ> add_sorted cmp a"
proof (cases "a = b")
  case True
  then show ?thesis by simp
next
  case False
  with assms have ne: "code a \<noteq> code b" by simp
  show ?thesis
  proof (rule ext)
    fix L
    show "(add_sorted cmp a \<circ> add_sorted cmp b) L = (add_sorted cmp b \<circ> add_sorted cmp a) L"
    proof (cases "main_code a = [] \<or> main_code b = []")
      case True
      then show ?thesis by (auto simp: add_sorted_def)
    next
      case False
      then have c: "compat (path_of (main_code a)) (Occ a) (path_of (main_code b)) (Occ b)"
        using ne by (intro compat_path_of) auto
      have "apart_keys cmp (insert (node_code (Occ a)) (insert (node_code (Occ b))
              (fst ` set (path_of (main_code a)) \<union> fst ` set (path_of (main_code b)))))"
        using assms(3)
      proof (rule apart_keys_mono)
        show "insert (node_code (Occ a)) (insert (node_code (Occ b))
              (fst ` set (path_of (main_code a)) \<union> fst ` set (path_of (main_code b))))
            \<subseteq> set (keys_of a) \<union> set (keys_of b)"
          using path_of_keys [of a] path_of_keys [of b] code_in_keys [of a] code_in_keys [of b]
          by auto
      qed
      with assms(1) c have "insert_sorted cmp (path_of (main_code a)) (Occ a)
            (insert_sorted cmp (path_of (main_code b)) (Occ b) L) =
          insert_sorted cmp (path_of (main_code b)) (Occ b)
            (insert_sorted cmp (path_of (main_code a)) (Occ a) L)"
        by (rule insert_sorted_commute)
      then show ?thesis
        using False by (simp add: add_sorted_def)
    qed
  qed
qed

text \<open>
  C8, as the code has it: the tree is the same for every reordering of the records when no
  two different records have the same code and the collation ties no two different strings
  among the codes of the records and the group codes taken from them (the lexicographic
  comparison ties no two different strings at all).
\<close>

theorem input_order_irrelevant:
  assumes "collation localeCompare"
    and "\<forall>a\<in>set occs. \<forall>b\<in>set occs. code a = code b \<longrightarrow> a = b"
    and "\<forall>k\<in>set (concat (map keys_of occs)). \<forall>l\<in>set (concat (map keys_of occs)).
           localeCompare k l \<le> 0 \<and> localeCompare l k \<le> 0 \<longrightarrow> k = l"
    and "mset occs' = mset occs"
  shows "organizeOccupations localeCompare occs' = organizeOccupations localeCompare occs"
proof -
  have apart: "apart_keys localeCompare (set (concat (map keys_of occs)))"
    using assms(3) by (simp add: apart_keys_def ties_def)
  have "fold (add_sorted localeCompare) occs = fold (add_sorted localeCompare) occs'"
  proof (rule fold_multiset_equiv)
    show "add_sorted localeCompare x \<circ> add_sorted localeCompare y =
          add_sorted localeCompare y \<circ> add_sorted localeCompare x"
      if "x \<in> set occs" "y \<in> set occs" for x y
    proof (rule add_sorted_commute)
      show "collation localeCompare" by (rule assms(1))
      show "code x \<noteq> code y \<or> x = y"
        using that assms(2) by auto
      show "apart_keys localeCompare (set (keys_of x) \<union> set (keys_of y))"
        using apart by (rule apart_keys_mono) (use that in auto)
    qed
    show "mset occs = mset occs'"
      using assms(4) by simp
  qed
  then show ?thesis
    using assms(1) by (simp add: organizeOccupations_fold)
qed

lemma collation_lex_compare: "collation lex_compare"
  unfolding collation_def lex_compare_le by auto

lemma ties_lex_compare: "ties lex_compare a b \<Longrightarrow> a = b"
  by (auto simp: ties_def lex_compare_le)

lemma caseless_a_B:
  "caseless_compare ''a'' ''B'' = - 1" "caseless_compare ''B'' ''a'' = 1"
  "caseless_compare ''a'' ''A'' = 0" "caseless_compare ''A'' ''a'' = 0"
  by code_simp+

lemma letter_codes: "code lower_a = ''a''" "code upper_B = ''B''" "code upper_A = ''A''"
  by (simp_all add: lower_a_def upper_B_def upper_A_def)

lemma letter_names:
  "getMajorGroupName ''a'' = ''Group a''" "getMajorGroupName ''B'' = ''Group B''"
  "getMajorGroupName ''A'' = ''Group A''"
  by (simp_all add: getMajorGroupName_def lookup_name_def majorGroupNames_def)

lemma tree_tied_letters:
  "organizeOccupations caseless_compare [lower_a, upper_A] =
     [Group ''a'' ''Group a'' [Occ lower_a], Group ''A'' ''Group A'' [Occ upper_A]]"
  "organizeOccupations caseless_compare [upper_A, lower_a] =
     [Group ''A'' ''Group A'' [Occ upper_A], Group ''a'' ''Group a'' [Occ lower_a]]"
  by (simp_all add: organizeOccupations_def addOccupation_path main_code_def split_first_def
      letter_codes path_of_def letter_names push_def array_sort_def by_code_def caseless_a_B)

lemma tree_letters:
  "organizeOccupations caseless_compare [upper_B, lower_a] =
     [Group ''a'' ''Group a'' [Occ lower_a], Group ''B'' ''Group B'' [Occ upper_B]]"
  by (simp add: organizeOccupations_def addOccupation_path main_code_def split_first_def
      letter_codes path_of_def letter_names push_def array_sort_def by_code_def caseless_a_B)

text \<open>
  C7 as stated fails: a collation that puts \<open>a\<close> before \<open>B\<close>, as the collation of the
  host does, gives the roots \<open>a\<close>, \<open>B\<close>, and \<open>a\<close> is after \<open>B\<close> in the lexicographic
  order of code units.
\<close>

theorem children_sorted_by_code_counterexample:
  "Suc 0 < length (organizeOccupations caseless_compare [upper_B, lower_a]) \<and>
   \<not> node_code (organizeOccupations caseless_compare [upper_B, lower_a] ! 0)
       \<le> node_code (organizeOccupations caseless_compare [upper_B, lower_a] ! Suc 0)"
  unfolding tree_letters by simp

theorem children_sorted_by_collation_witness:
  "hd (organizeOccupations lex_compare [developer, analyst]) \<in> set (organizeOccupations lex_compare [developer, analyst]) \<and>
   Group ''251'' ''Software and applications developers and analysts''
       [Group ''2511'' ''Group 2511'' [Occ analyst], Group ''2512'' ''Group 2512'' [Occ developer]]
     \<in> set (groups_of (hd (organizeOccupations lex_compare [developer, analyst]))) \<and>
   Suc 0 < length [Group ''2511'' ''Group 2511'' [Occ analyst], Group ''2512'' ''Group 2512'' [Occ developer]] \<and>
   lex_compare
     (node_code ([Group ''2511'' ''Group 2511'' [Occ analyst], Group ''2512'' ''Group 2512'' [Occ developer]] ! 0))
     (node_code ([Group ''2511'' ''Group 2511'' [Occ analyst], Group ''2512'' ''Group 2512'' [Occ developer]] ! Suc 0))
     \<le> 0"
  using children_sorted_by_collation [OF collation_lex_compare, of "[developer, analyst]"]
  unfolding tree_analyst_developer by simp

lemma twin_differs: "developer_twin \<noteq> developer" "code developer_twin = ''2512''"
  by (simp_all add: developer_twin_def developer_def)

lemma tree_twins:
  "organizeOccupations cmp [a, b] =
     [Group ''2'' ''Professionals''
       [Group ''25'' ''Information and communications technology professionals''
         [Group ''251'' ''Software and applications developers and analysts''
           [Group ''2512'' ''Group 2512''
             (if cmp ''2512'' ''2512'' \<le> 0 then [Occ a, Occ b] else [Occ b, Occ a])]]]]"
  if "code a = ''2512''" "code b = ''2512''"
  using that
  by (simp add: organizeOccupations_def addOccupation_path main_code_def split_first_def
      path_of_def example_names push_def array_sort_def by_code_def)

text \<open>
  C8 as stated fails: two different records with the same code stay in the order of the
  input under their unit group, so the two orders of the input give two trees, under the
  lexicographic comparison and under every other collation. So do two groups whose
  different codes tie in the collation, as \<open>a\<close> and \<open>A\<close> do when case is ignored.
\<close>

theorem input_order_matters_counterexample:
  "mset [developer_twin, developer] = mset [developer, developer_twin] \<and>
   organizeOccupations lex_compare [developer_twin, developer]
     \<noteq> organizeOccupations lex_compare [developer, developer_twin] \<and>
   mset [upper_A, lower_a] = mset [lower_a, upper_A] \<and> code upper_A \<noteq> code lower_a \<and>
   organizeOccupations caseless_compare [upper_A, lower_a]
     \<noteq> organizeOccupations caseless_compare [lower_a, upper_A]"
  using twin_differs
  by (simp add: tree_twins example_codes tree_tied_letters letter_codes)

lemma twins_every_collation:
  "organizeOccupations cmp [developer_twin, developer] \<noteq> organizeOccupations cmp [developer, developer_twin]"
  using twin_differs
  by (simp add: tree_twins example_codes)

theorem input_order_irrelevant_witness:
  "mset [analyst, developer] = mset [developer, analyst] \<and> code analyst \<noteq> code developer \<and>
   organizeOccupations lex_compare [analyst, developer] = organizeOccupations lex_compare [developer, analyst]"
proof -
  have "\<forall>a\<in>set [developer, analyst]. \<forall>b\<in>set [developer, analyst]. code a = code b \<longrightarrow> a = b"
    by (simp add: example_codes)
  moreover have "\<forall>k\<in>set (concat (map keys_of [developer, analyst])).
      \<forall>l\<in>set (concat (map keys_of [developer, analyst])).
        lex_compare k l \<le> 0 \<and> lex_compare l k \<le> 0 \<longrightarrow> k = l"
    using ties_lex_compare by (auto simp: ties_def)
  moreover have "mset [analyst, developer] = mset [developer, analyst]"
    by simp
  ultimately have "organizeOccupations lex_compare [analyst, developer] =
      organizeOccupations lex_compare [developer, analyst]"
    using input_order_irrelevant [OF collation_lex_compare, of "[developer, analyst]" "[analyst, developer]"]
    by blast
  then show ?thesis
    by (simp add: example_codes)
qed

end
